theory Spec2Isabelle
  imports Complex_Main
begin

section \<open>The Disintegrate component (src/components/Disintegrate.tsx)\<close>

text \<open>
  A shallow embedding of the animation logic of the \<^verbatim>\<open>Disintegrate\<close> React component.
  A finite JavaScript number is a \<^typ>\<open>real\<close>; the result of an arithmetic expression is a
  \<open>number\<close>, which is either finite or \<open>NonFinite\<close> (one of \<^verbatim>\<open>Infinity\<close>,
  \<^verbatim>\<open>-Infinity\<close>, \<^verbatim>\<open>NaN\<close>). JavaScript never faults on a division: a zero divisor gives
  a non-finite value, and every arithmetic operation on a non-finite value with a finite
  nonzero constant is non-finite again.

  The arithmetic of the phase clock is given twice. The functions \<open>getPhaseProgress\<close>,
  \<open>getEffectIntensity\<close> and \<open>totalDuration\<close> compute with exact reals; they carry the
  properties that depend on the order of the comparisons only. The functions with the
  suffix \<open>D\<close> round the result of every operation to the nearest IEEE 754 double (\<open>fl\<close>,
  ties to even, gradual underflow), as the code does; they carry the properties that
  depend on the computed values.
\<close>

subsection \<open>Numbers\<close>

datatype number = Finite real | NonFinite

definition js_div :: "real \<Rightarrow> real \<Rightarrow> number" where
  "js_div a b = (if b = 0 then NonFinite else Finite (a / b))"

fun lift :: "(real \<Rightarrow> real) \<Rightarrow> number \<Rightarrow> number" where
  "lift f (Finite x) = Finite (f x)"
| "lift f NonFinite = NonFinite"

text \<open>Comparison of two finite numbers; it is false when either side is non-finite.\<close>

fun numLe :: "number \<Rightarrow> number \<Rightarrow> bool" where
  "numLe (Finite x) (Finite y) = (x \<le> y)"
| "numLe (Finite x) NonFinite = False"
| "numLe NonFinite y = False"

subsection \<open>Rounding to doubles\<close>

text \<open>
  \<open>expo x\<close> is the binary exponent of a positive \<open>x\<close>: \<open>2 ^ expo x \<le> x < 2 ^ (expo x + 1)\<close>.
\<close>

function expo :: "real \<Rightarrow> int" where
  "expo x = (if x \<le> 0 then 0
             else if x < 1 then expo (2 * x) - 1
             else if 2 \<le> x then expo (x / 2) + 1
             else 0)"
  by pat_completeness auto
termination
proof (relation "measure (\<lambda>x. nat \<bar>\<lfloor>log 2 x\<rfloor>\<bar>)")
  show "wf (measure (\<lambda>x. nat \<bar>\<lfloor>log 2 x\<rfloor>\<bar>))" by simp
next
  fix x :: real
  assume a: "\<not> x \<le> 0" "x < 1"
  then have "log 2 (2 * x) = 1 + log 2 x" by (simp add: log_mult)
  then have f: "\<lfloor>log 2 (2 * x)\<rfloor> = 1 + \<lfloor>log 2 x\<rfloor>" by simp
  have "log 2 x < 0" using a by simp
  then have "\<lfloor>log 2 x\<rfloor> < 0" by linarith
  then have "nat \<bar>1 + \<lfloor>log 2 x\<rfloor>\<bar> < nat \<bar>\<lfloor>log 2 x\<rfloor>\<bar>" by linarith
  then show "(2 * x, x) \<in> measure (\<lambda>x. nat \<bar>\<lfloor>log 2 x\<rfloor>\<bar>)"
    unfolding in_measure f .
next
  fix x :: real
  assume a: "\<not> x \<le> 0" "\<not> x < 1" "2 \<le> x"
  then have "log 2 (x / 2) = log 2 x - 1" by (simp add: log_divide)
  then have f: "\<lfloor>log 2 (x / 2)\<rfloor> = \<lfloor>log 2 x\<rfloor> - 1" by simp
  have "1 \<le> log 2 x" using a by (simp add: le_log_iff)
  then have "1 \<le> \<lfloor>log 2 x\<rfloor>" by linarith
  then have "nat \<bar>\<lfloor>log 2 x\<rfloor> - 1\<bar> < nat \<bar>\<lfloor>log 2 x\<rfloor>\<bar>" by linarith
  then show "(x / 2, x) \<in> measure (\<lambda>x. nat \<bar>\<lfloor>log 2 x\<rfloor>\<bar>)"
    unfolding in_measure f .
qed

declare expo.simps [simp del]

text \<open>Rounding to the nearest integer, ties to the even one.\<close>

definition rne :: "real \<Rightarrow> int" where
  "rne q = (let f = \<lfloor>q\<rfloor>; r = q - of_int f
            in if r < 1 / 2 then f else if 1 / 2 < r then f + 1
               else if even f then f else f + 1)"

text \<open>
  The double nearest to a real: 53 significant bits, exponents from \<open>-1022\<close> up, ties to
  even. The exponent is not bounded above here; overflow is the test in \<open>flN\<close>.
\<close>

definition fl :: "real \<Rightarrow> real" where
  "fl x = (let e = max (expo \<bar>x\<bar>) (- 1022); u = 2 powi (e - 52)
           in sgn x * of_int (rne (\<bar>x\<bar> / u)) * u)"

text \<open>The exponent of the binade, with gradual underflow.\<close>

definition bexp :: "real \<Rightarrow> int" where
  "bexp x = max (expo \<bar>x\<bar>) (- 1022)"

text \<open>A finite double; the result of an operation, which overflows to a non-finite value.\<close>

definition isDouble :: "real \<Rightarrow> bool" where
  "isDouble x = (fl x = x \<and> \<bar>x\<bar> < 2 ^ 1024)"

definition flN :: "real \<Rightarrow> number" where
  "flN x = (if 2 ^ 1024 \<le> \<bar>fl x\<bar> then NonFinite else Finite (fl x))"

fun mulD :: "number \<Rightarrow> number \<Rightarrow> number" where
  "mulD (Finite a) (Finite b) = flN (a * b)"
| "mulD (Finite a) NonFinite = NonFinite"
| "mulD NonFinite b = NonFinite"

fun addD :: "number \<Rightarrow> number \<Rightarrow> number" where
  "addD (Finite a) (Finite b) = flN (a + b)"
| "addD (Finite a) NonFinite = NonFinite"
| "addD NonFinite b = NonFinite"

subsection \<open>Defaults\<close>

text \<open>A destructuring default \<^verbatim>\<open>{ x = d } = obj\<close> applies only when the field is undefined.\<close>

fun orDefault :: "real option \<Rightarrow> real \<Rightarrow> real" where
  "orDefault None d = d"
| "orDefault (Some x) d = x"

text \<open>The operator \<^verbatim>\<open>x || d\<close> on an optional number: undefined and 0 are both falsy.\<close>

fun orElse :: "real option \<Rightarrow> real \<Rightarrow> real" where
  "orElse None d = d"
| "orElse (Some x) d = (if x = 0 then d else x)"

subsection \<open>Props\<close>

datatype Direction = Random | Left | Up

text \<open>Every field of \<^verbatim>\<open>AnimationTiming\<close> is optional: \<open>None\<close> is \<^verbatim>\<open>undefined\<close>.\<close>

record AnimationTiming =
  initialDelay :: "real option"
  fadeInDuration :: "real option"
  holdDuration :: "real option"
  fadeOutDuration :: "real option"

text \<open>
  The props the animation reads. \<open>onComplete\<close> tells whether the host passed a callback;
  the calls of the callback are counted in the state.
\<close>

record props =
  direction :: Direction
  timing :: AnimationTiming
  onComplete :: bool

definition defaultTiming :: AnimationTiming where
  "defaultTiming = \<lparr>initialDelay = Some 200, fadeInDuration = Some 400,
     holdDuration = Some 200, fadeOutDuration = Some 1200\<rparr>"

datatype phase = Initial | FadeIn | Hold | FadeOut | Complete

record angles =
  xAngle :: real
  yAngle :: real

fun getDirectionAngles :: "Direction \<Rightarrow> angles" where
  "getDirectionAngles Left = \<lparr>xAngle = 0, yAngle = 1\<rparr>"
| "getDirectionAngles Up = \<lparr>xAngle = 1, yAngle = 0\<rparr>"
| "getDirectionAngles Random = \<lparr>xAngle = 0, yAngle = 0\<rparr>"

subsection \<open>Easing, phase classification and intensity\<close>

definition easeOutCubic :: "real \<Rightarrow> real" where
  "easeOutCubic t = 1 - (1 - t) ^ 3"

definition easeInCubic :: "real \<Rightarrow> real" where
  "easeInCubic t = t * t * t"

record phaseProgress =
  phase :: phase
  progress :: number

definition totalDuration :: "AnimationTiming \<Rightarrow> real" where
  "totalDuration tm =
     orDefault (initialDelay tm) 200 + orDefault (fadeInDuration tm) 400
       + orDefault (holdDuration tm) 200 + orDefault (fadeOutDuration tm) 1200"

definition getPhaseProgress :: "AnimationTiming \<Rightarrow> real \<Rightarrow> phaseProgress" where
  "getPhaseProgress tm elapsed =
     (let d0 = orDefault (initialDelay tm) 200;
          d1 = orDefault (fadeInDuration tm) 400;
          d2 = orDefault (holdDuration tm) 200;
          d3 = orDefault (fadeOutDuration tm) 1200
      in if elapsed < d0 then
           \<lparr>phase = Initial, progress = js_div elapsed d0\<rparr>
         else if elapsed < d0 + d1 then
           \<lparr>phase = FadeIn, progress = js_div (elapsed - d0) d1\<rparr>
         else if elapsed < d0 + d1 + d2 then
           \<lparr>phase = Hold, progress = js_div (elapsed - d0 - d1) d2\<rparr>
         else if elapsed < totalDuration tm then
           \<lparr>phase = FadeOut, progress = js_div (elapsed - d0 - d1 - d2) d3\<rparr>
         else \<lparr>phase = Complete, progress = Finite 1\<rparr>)"

fun getEffectIntensity :: "phase \<Rightarrow> number \<Rightarrow> number" where
  "getEffectIntensity Initial p = Finite 0"
| "getEffectIntensity FadeIn p = lift (\<lambda>t. easeInCubic t * 0.3) p"
| "getEffectIntensity Hold p = Finite 0.3"
| "getEffectIntensity FadeOut p = lift (\<lambda>t. 0.3 + t * 0.7) p"
| "getEffectIntensity Complete p = Finite 0"

text \<open>The intensity of a tick at an elapsed time, as \<open>animate\<close> computes it.\<close>

definition intensityAt :: "AnimationTiming \<Rightarrow> real \<Rightarrow> number" where
  "intensityAt tm elapsed =
     (let r = getPhaseProgress tm elapsed in getEffectIntensity (phase r) (progress r))"

subsection \<open>The phase clock in double arithmetic\<close>

text \<open>
  The same functions with the result of every operation rounded. The literals
  \<^verbatim>\<open>0.3\<close> and \<^verbatim>\<open>0.7\<close> are the doubles \<open>fl (3 / 10)\<close> and \<open>fl (7 / 10)\<close>. The sums and
  differences of durations are rounded without a test for overflow: an elapsed time is a
  finite double, and it compares with an overflowed sum as it does with the rounded one.
\<close>

definition js_divD :: "real \<Rightarrow> real \<Rightarrow> number" where
  "js_divD a b = (if b = 0 then NonFinite else flN (a / b))"

definition totalDurationD :: "AnimationTiming \<Rightarrow> real" where
  "totalDurationD tm =
     fl (fl (fl (orDefault (initialDelay tm) 200 + orDefault (fadeInDuration tm) 400)
       + orDefault (holdDuration tm) 200) + orDefault (fadeOutDuration tm) 1200)"

definition getPhaseProgressD :: "AnimationTiming \<Rightarrow> real \<Rightarrow> phaseProgress" where
  "getPhaseProgressD tm elapsed =
     (let d0 = orDefault (initialDelay tm) 200;
          d1 = orDefault (fadeInDuration tm) 400;
          d2 = orDefault (holdDuration tm) 200;
          d3 = orDefault (fadeOutDuration tm) 1200
      in if elapsed < d0 then
           \<lparr>phase = Initial, progress = js_divD elapsed d0\<rparr>
         else if elapsed < fl (d0 + d1) then
           \<lparr>phase = FadeIn, progress = js_divD (fl (elapsed - d0)) d1\<rparr>
         else if elapsed < fl (fl (d0 + d1) + d2) then
           \<lparr>phase = Hold, progress = js_divD (fl (fl (elapsed - d0) - d1)) d2\<rparr>
         else if elapsed < totalDurationD tm then
           \<lparr>phase = FadeOut,
            progress = js_divD (fl (fl (fl (elapsed - d0) - d1) - d2)) d3\<rparr>
         else \<lparr>phase = Complete, progress = Finite 1\<rparr>)"

definition easeInCubicD :: "number \<Rightarrow> number" where
  "easeInCubicD t = mulD (mulD t t) t"

fun getEffectIntensityD :: "phase \<Rightarrow> number \<Rightarrow> number" where
  "getEffectIntensityD Initial p = Finite 0"
| "getEffectIntensityD FadeIn p = mulD (easeInCubicD p) (Finite (fl (3 / 10)))"
| "getEffectIntensityD Hold p = Finite (fl (3 / 10))"
| "getEffectIntensityD FadeOut p =
     addD (Finite (fl (3 / 10))) (mulD p (Finite (fl (7 / 10))))"
| "getEffectIntensityD Complete p = Finite 0"

definition intensityAtD :: "AnimationTiming \<Rightarrow> real \<Rightarrow> number" where
  "intensityAtD tm elapsed =
     (let r = getPhaseProgressD tm elapsed in getEffectIntensityD (phase r) (progress r))"

subsection \<open>Component state, the filter element and the browser's queues\<close>

text \<open>
  The attributes of the filter's children that the component writes: the seed of the
  first \<^verbatim>\<open>feTurbulence\<close> (absent in the markup) and the scale and channel selectors of
  the \<^verbatim>\<open>feDisplacementMap\<close>. The scale is kept as the number whose string was written.
\<close>

record svgFilter =
  seed :: "int option"
  scale :: number
  xChannelSelector :: string
  yChannelSelector :: string

definition renderedFilter :: svgFilter where
  "renderedFilter = \<lparr>seed = None, scale = Finite 0,
     xChannelSelector = ''G'', yChannelSelector = ''R''\<rparr>"

text \<open>
  The component's state and refs, followed by what the browser holds for it: the handles
  of the pending \<^verbatim>\<open>requestAnimationFrame(animate)\<close> requests, the next handle to hand
  out, the number of pending \<^verbatim>\<open>setTimeout(resetEffect, 0)\<close> timers (their handles are
  dropped by the code), and the number of calls of \<open>onComplete\<close> so far.
\<close>

record state =
  isDisintegrating :: bool
  animationPhase :: phase
  animationRef :: "nat option"
  startTimeRef :: "real option"
  filterRef :: "svgFilter option"
  frameRequests :: "nat list"
  nextHandle :: nat
  resetTimers :: nat
  onCompleteCalls :: nat

definition mounted :: state where
  "mounted = \<lparr>isDisintegrating = False, animationPhase = Initial, animationRef = None,
     startTimeRef = None, filterRef = Some renderedFilter, frameRequests = [],
     nextHandle = 1, resetTimers = 0, onCompleteCalls = 0\<rparr>"

definition requestAnimationFrame :: "state \<Rightarrow> state" where
  "requestAnimationFrame s =
     s\<lparr>animationRef := Some (nextHandle s),
       frameRequests := frameRequests s @ [nextHandle s],
       nextHandle := nextHandle s + 1\<rparr>"

definition cancelAnimationFrame :: "nat \<Rightarrow> state \<Rightarrow> state" where
  "cancelAnimationFrame h s = s\<lparr>frameRequests := removeAll h (frameRequests s)\<rparr>"

definition resetEffect :: "props \<Rightarrow> state \<Rightarrow> state" where
  "resetEffect p s =
     (let s1 = (case filterRef s of
                  None \<Rightarrow> s
                | Some f \<Rightarrow> s\<lparr>filterRef := Some (f\<lparr>scale := Finite 0\<rparr>)\<rparr>)
      in s1\<lparr>isDisintegrating := False, animationPhase := Initial,
            onCompleteCalls := (if onComplete p then onCompleteCalls s1 + 1
                                else onCompleteCalls s1)\<rparr>)"

text \<open>\<open>rnd\<close> is the value of \<^verbatim>\<open>Math.random()\<close>.\<close>

definition setRandomSeed :: "real \<Rightarrow> state \<Rightarrow> state" where
  "setRandomSeed rnd s =
     (case filterRef s of
        None \<Rightarrow> s
      | Some f \<Rightarrow> s\<lparr>filterRef := Some (f\<lparr>seed := Some \<lfloor>rnd * 1000\<rfloor>\<rparr>)\<rparr>)"

text \<open>
  One call of \<open>animate\<close> when \<^verbatim>\<open>performance.now()\<close> is \<open>now\<close>. The phase is compared with
  the \<open>animationPhase\<close> of the render that created the closure; storing the phase that is
  already stored changes nothing, so the state afterwards holds the computed phase.
\<close>

definition animate :: "props \<Rightarrow> real \<Rightarrow> state \<Rightarrow> state" where
  "animate p now s =
     (case startTimeRef s of
        None \<Rightarrow> s
      | Some start \<Rightarrow>
          if start = 0 then s
          else
            let elapsed = now - start;
                r = getPhaseProgress (timing p) elapsed;
                intensity = getEffectIntensity (phase r) (progress r);
                s1 = (if phase r \<noteq> animationPhase s then s\<lparr>animationPhase := phase r\<rparr> else s);
                a = getDirectionAngles (direction p);
                s2 = (case filterRef s1 of
                        None \<Rightarrow> s1
                      | Some f \<Rightarrow>
                          let sc = lift (\<lambda>i. i * orElse (fadeOutDuration (timing p)) 1200) intensity
                          in if direction p = Random then
                               s1\<lparr>filterRef := Some (f\<lparr>scale := sc\<rparr>)\<rparr>
                             else
                               s1\<lparr>filterRef := Some (f
                                 \<lparr>xChannelSelector := (if xAngle a \<noteq> 0 then ''R'' else ''A''),
                                  yChannelSelector := (if yAngle a \<noteq> 0 then ''G'' else ''A''),
                                  scale := sc\<rparr>)\<rparr>)
            in if phase r \<noteq> Complete then requestAnimationFrame s2
               else s2\<lparr>resetTimers := resetTimers s2 + 1\<rparr>)"

text \<open>
  \<open>startDisintegration\<close> reads the clock twice: \<open>now\<close> for the start time and \<open>now2\<close> in
  its call of \<open>animate\<close>.
\<close>

definition startDisintegration :: "props \<Rightarrow> real \<Rightarrow> real \<Rightarrow> real \<Rightarrow> state \<Rightarrow> state" where
  "startDisintegration p now rnd now2 s =
     animate p now2
       (setRandomSeed rnd
         (s\<lparr>isDisintegrating := True, animationPhase := Initial, startTimeRef := Some now\<rparr>))"

text \<open>The effect that runs when the prop \<open>isActive\<close> changes.\<close>

definition isActiveEffect :: "props \<Rightarrow> bool \<Rightarrow> real \<Rightarrow> real \<Rightarrow> real \<Rightarrow> state \<Rightarrow> state" where
  "isActiveEffect p isActive now rnd now2 s =
     (if isActive \<and> \<not> isDisintegrating s then startDisintegration p now rnd now2 s else s)"

text \<open>The cleanup of the mount effect; a handle is truthy when it is defined and not 0.\<close>

definition cleanup :: "state \<Rightarrow> state" where
  "cleanup s =
     (case animationRef s of
        None \<Rightarrow> s
      | Some h \<Rightarrow> if h \<noteq> 0 then cancelAnimationFrame h s else s)"

text \<open>
  What can happen to a mounted component: the prop \<open>isActive\<close> changes, the browser runs
  the oldest pending frame request, a pending reset timer fires, or the component is
  unmounted (React runs the cleanup and detaches the ref of the filter).
\<close>

datatype event =
  IsActiveChanged bool real real real
| AnimationFrame real
| ResetTimer
| Unmount

fun step :: "props \<Rightarrow> state \<Rightarrow> event \<Rightarrow> state" where
  "step p s (IsActiveChanged a now rnd now2) = isActiveEffect p a now rnd now2 s"
| "step p s (AnimationFrame now) =
     (case frameRequests s of
        [] \<Rightarrow> s
      | h # hs \<Rightarrow> animate p now (s\<lparr>frameRequests := hs\<rparr>))"
| "step p s ResetTimer =
     (if resetTimers s = 0 then s else resetEffect p (s\<lparr>resetTimers := resetTimers s - 1\<rparr>))"
| "step p s Unmount = (cleanup s)\<lparr>filterRef := None\<rparr>"

definition run :: "props \<Rightarrow> state \<Rightarrow> event list \<Rightarrow> state" where
  "run p s evs = foldl (step p) s evs"

subsection \<open>Vocabulary of the properties\<close>

text \<open>The phase order \<open>Initial < FadeIn < Hold < FadeOut < Complete\<close>.\<close>

fun phaseIndex :: "phase \<Rightarrow> nat" where
  "phaseIndex Initial = 0"
| "phaseIndex FadeIn = 1"
| "phaseIndex Hold = 2"
| "phaseIndex FadeOut = 3"
| "phaseIndex Complete = 4"

text \<open>A timing configuration is valid when every duration it gives is non-negative.\<close>

fun nonNegative :: "real option \<Rightarrow> bool" where
  "nonNegative None = True"
| "nonNegative (Some d) = (0 \<le> d)"

definition validTiming :: "AnimationTiming \<Rightarrow> bool" where
  "validTiming tm =
     (nonNegative (initialDelay tm) \<and> nonNegative (fadeInDuration tm)
      \<and> nonNegative (holdDuration tm) \<and> nonNegative (fadeOutDuration tm))"

definition positiveTiming :: "AnimationTiming \<Rightarrow> bool" where
  "positiveTiming tm =
     (0 < orDefault (initialDelay tm) 200 \<and> 0 < orDefault (fadeInDuration tm) 400
      \<and> 0 < orDefault (holdDuration tm) 200 \<and> 0 < orDefault (fadeOutDuration tm) 1200)"



text \<open>
  A timing configuration of doubles, each non-negative; and one whose durations are
  positive whole numbers with a sum of at most \<open>2 ^ 53\<close>.
\<close>

fun doubleNonNegative :: "real option \<Rightarrow> bool" where
  "doubleNonNegative None = True"
| "doubleNonNegative (Some d) = (isDouble d \<and> 0 \<le> d)"

definition validTimingD :: "AnimationTiming \<Rightarrow> bool" where
  "validTimingD tm =
     (doubleNonNegative (initialDelay tm) \<and> doubleNonNegative (fadeInDuration tm)
      \<and> doubleNonNegative (holdDuration tm) \<and> doubleNonNegative (fadeOutDuration tm))"

definition wholePositive :: "real \<Rightarrow> bool" where
  "wholePositive d = (0 < d \<and> of_int \<lfloor>d\<rfloor> = d)"

definition wholeTiming :: "AnimationTiming \<Rightarrow> bool" where
  "wholeTiming tm =
     (wholePositive (orDefault (initialDelay tm) 200)
      \<and> wholePositive (orDefault (fadeInDuration tm) 400)
      \<and> wholePositive (orDefault (holdDuration tm) 200)
      \<and> wholePositive (orDefault (fadeOutDuration tm) 1200)
      \<and> totalDuration tm \<le> 2 ^ 53)"

text \<open>
  The intensity in double arithmetic as a function of the elapsed time, for durations
  \<open>d0\<close> to \<open>d3\<close> whose sums are exact.
\<close>

definition cubeD :: "real \<Rightarrow> real" where
  "cubeD t = fl (fl (t * t) * t)"

definition progressFI :: "real \<Rightarrow> real \<Rightarrow> real \<Rightarrow> real" where
  "progressFI d0 d1 e = fl (fl (e - d0) / d1)"

definition progressFO :: "real \<Rightarrow> real \<Rightarrow> real \<Rightarrow> real \<Rightarrow> real \<Rightarrow> real" where
  "progressFO d0 d1 d2 d3 e = fl (fl (fl (fl (e - d0) - d1) - d2) / d3)"

definition intensityD :: "real \<Rightarrow> real \<Rightarrow> real \<Rightarrow> real \<Rightarrow> real \<Rightarrow> real" where
  "intensityD d0 d1 d2 d3 e =
     (if e < d0 then 0
      else if e < d0 + d1 then fl (cubeD (progressFI d0 d1 e) * fl (3 / 10))
      else if e < d0 + d1 + d2 then fl (3 / 10)
      else if e < d0 + d1 + d2 + d3 then fl (fl (3 / 10) + fl (progressFO d0 d1 d2 d3 e * fl (7 / 10)))
      else 0)"

definition exactDurations :: "real \<Rightarrow> real \<Rightarrow> real \<Rightarrow> real \<Rightarrow> bool" where
  "exactDurations d0 d1 d2 d3 =
     (0 < d0 \<and> 0 < d1 \<and> 0 < d2 \<and> 0 < d3
      \<and> fl d1 = d1 \<and> fl d2 = d2 \<and> fl d3 = d3
      \<and> fl (d0 + d1) = d0 + d1 \<and> fl (d1 + d2) = d1 + d2 \<and> fl (d2 + d3) = d2 + d3
      \<and> fl (d0 + d1 + d2) = d0 + d1 + d2 \<and> fl (d1 + d2 + d3) = d1 + d2 + d3
      \<and> fl (d0 + d1 + d2 + d3) = d0 + d1 + d2 + d3)"


text \<open>Events other than a change of \<open>isActive\<close>, and states with nothing scheduled.\<close>

fun isActivation :: "event \<Rightarrow> bool" where
  "isActivation (IsActiveChanged a now rnd now2) = True"
| "isActivation (AnimationFrame now) = False"
| "isActivation ResetTimer = False"
| "isActivation Unmount = False"

definition idle :: "state \<Rightarrow> bool" where
  "idle s = (frameRequests s = [] \<and> resetTimers s = 0)"


definition zeroFadeOutTiming :: AnimationTiming where
  "zeroFadeOutTiming = \<lparr>initialDelay = Some 200, fadeInDuration = Some 400,
     holdDuration = Some 200, fadeOutDuration = Some 0\<rparr>"

definition tenthsTiming :: AnimationTiming where
  "tenthsTiming = \<lparr>initialDelay = Some (fl (1 / 10)), fadeInDuration = Some (fl (2 / 10)),
     holdDuration = Some (fl (3 / 10)), fadeOutDuration = Some (fl (3 / 10))\<rparr>"

definition seamTiming :: AnimationTiming where
  "seamTiming = \<lparr>initialDelay = Some (fl (1 / 10)), fadeInDuration = Some (fl (3 / 10)),
     holdDuration = Some (fl (9 / 10)), fadeOutDuration = Some (fl (1 / 10))\<rparr>"

definition leftProps :: props where
  "leftProps = \<lparr>direction = Left, timing = defaultTiming, onComplete = True\<rparr>"

definition zeroFadeOutProps :: props where
  "zeroFadeOutProps = \<lparr>direction = Left, timing = zeroFadeOutTiming, onComplete = True\<rparr>"

section \<open>Properties of the phase clock\<close>

text \<open>
  Claim C3. The intensity is exactly 0.3 at FadeIn with progress 1, at every point of Hold
  and at FadeOut with progress 0, so there is no jump across the FadeIn, Hold, FadeOut
  seam; and it is exactly 1 at FadeOut with progress 1.
\<close>

theorem getEffectIntensity_seam:
  "getEffectIntensity FadeIn (Finite 1) = Finite 0.3
   \<and> getEffectIntensity Hold p = Finite 0.3
   \<and> getEffectIntensity FadeOut (Finite 0) = Finite 0.3
   \<and> getEffectIntensity FadeOut (Finite 1) = Finite 1"
  by (simp add: easeInCubic_def)






lemma phaseIndex_mono:
  "e1 \<le> e2 \<Longrightarrow> phaseIndex (phase (getPhaseProgress tm e1))
     \<le> phaseIndex (phase (getPhaseProgress tm e2))"
  by (simp add: getPhaseProgress_def Let_def)

lemma phaseIndex_Complete: "phaseIndex p = 4 \<longleftrightarrow> p = Complete"
  by (cases p) simp_all

lemma phaseIndex_le_4: "phaseIndex p \<le> 4"
  by (cases p) simp_all

text \<open>
  Claim C7. For every fixed tm configuration the phase returned by
  \<open>getPhaseProgress\<close> is monotonically non-decreasing in the elapsed time under the order
  \<open>Initial < FadeIn < Hold < FadeOut < Complete\<close>, and Complete is terminal: no later
  elapsed time maps to an earlier phase.
\<close>

theorem getPhaseProgress_phase_monotone:
  assumes "e1 \<le> e2"
  shows "phaseIndex (phase (getPhaseProgress tm e1))
           \<le> phaseIndex (phase (getPhaseProgress tm e2))
    \<and> (phase (getPhaseProgress tm e1) = Complete
         \<longrightarrow> phase (getPhaseProgress tm e2) = Complete)"
proof (intro conjI impI)
  show le: "phaseIndex (phase (getPhaseProgress tm e1))
      \<le> phaseIndex (phase (getPhaseProgress tm e2))"
    using assms by (rule phaseIndex_mono)
  assume "phase (getPhaseProgress tm e1) = Complete"
  then have "4 \<le> phaseIndex (phase (getPhaseProgress tm e2))"
    using le by simp
  then have "phaseIndex (phase (getPhaseProgress tm e2)) = 4"
    using phaseIndex_le_4 [of "phase (getPhaseProgress tm e2)"] by simp
  then show "phase (getPhaseProgress tm e2) = Complete"
    by (simp only: phaseIndex_Complete)
qed

theorem getPhaseProgress_phase_monotone_witness:
  "(700::real) \<le> 2500
   \<and> phase (getPhaseProgress defaultTiming 700) = Hold
   \<and> phase (getPhaseProgress defaultTiming 2500) = Complete
   \<and> phaseIndex (phase (getPhaseProgress defaultTiming 700))
       \<le> phaseIndex (phase (getPhaseProgress defaultTiming 2500))"
proof -
  have e: "(700::real) \<le> 2500" by simp
  have a: "phase (getPhaseProgress defaultTiming 700) = Hold"
    by (simp add: getPhaseProgress_def defaultTiming_def totalDuration_def)
  have b: "phase (getPhaseProgress defaultTiming 2500) = Complete"
    by (simp add: getPhaseProgress_def defaultTiming_def totalDuration_def)
  from e a b getPhaseProgress_phase_monotone [OF e, of defaultTiming] show ?thesis
    by simp
qed

section \<open>Properties of the controller\<close>

lemmas controller_defs =
  run_def isActiveEffect_def startDisintegration_def setRandomSeed_def animate_def
  requestAnimationFrame_def cancelAnimationFrame_def cleanup_def resetEffect_def
  getPhaseProgress_def totalDuration_def js_div_def easeInCubic_def Let_def

lemmas input_defs =
  mounted_def renderedFilter_def leftProps_def zeroFadeOutProps_def defaultTiming_def
  zeroFadeOutTiming_def

text \<open>What a tick pushes as the scale when the filter is attached.\<close>

lemma animate_pushed_scale:
  assumes "filterRef s = Some f" and "startTimeRef s = Some t" and "t \<noteq> 0"
  shows "map_option scale (filterRef (animate p now s))
    = Some (lift (\<lambda>i. i * orElse (fadeOutDuration (timing p)) 1200)
        (intensityAt (timing p) (now - t)))"
  using assms
  by (simp add: animate_def requestAnimationFrame_def intensityAt_def Let_def)

lemma animate_pushed_scale_nonzero:
  assumes "filterRef s = Some f" and "startTimeRef s = Some t" and "t \<noteq> 0"
    and "fadeOutDuration (timing p) = Some d" and "d \<noteq> 0"
  shows "map_option scale (filterRef (animate p now s))
    = Some (lift (\<lambda>i. i * d) (intensityAt (timing p) (now - t)))"
  using assms(4,5) by (simp add: animate_pushed_scale [OF assms(1-3)])

text \<open>
  Claim C2 says that on every tick the scale pushed to the filter is the intensity times
  \<open>fadeOutDuration\<close>, also when \<open>fadeOutDuration\<close> is 0. The code multiplies by
  \<^verbatim>\<open>timing.fadeOutDuration || 1200\<close>, and 0 is falsy: with the default timing except
  \<open>fadeOutDuration = 0\<close>, the tick at elapsed time 700 (phase Hold, intensity 0.3) pushes
  the scale 360, not 0.
\<close>

theorem animate_scale_zero_fadeOut:
  "fadeOutDuration (timing zeroFadeOutProps) = Some 0
   \<and> intensityAt (timing zeroFadeOutProps) (1700 - 1000) = Finite 0.3
   \<and> startTimeRef (run zeroFadeOutProps mounted [IsActiveChanged True 1000 0.5 1000]) = Some 1000
   \<and> map_option scale (filterRef (run zeroFadeOutProps mounted
         [IsActiveChanged True 1000 0.5 1000, AnimationFrame 1700])) = Some (Finite 360)"
  by (simp add: controller_defs input_defs intensityAt_def)

lemma step_idle:
  assumes "idle s" and "\<not> isActivation ev"
  shows "idle (step p s ev) \<and> onCompleteCalls (step p s ev) = onCompleteCalls s"
  using assms
  by (cases ev) (simp_all add: idle_def cleanup_def cancelAnimationFrame_def split: option.splits)

lemma run_idle:
  assumes "idle s" and "list_all (\<lambda>ev. \<not> isActivation ev) evs"
  shows "idle (run p s evs) \<and> onCompleteCalls (run p s evs) = onCompleteCalls s"
  using assms
proof (induction evs arbitrary: s)
  case Nil
  then show ?case by (simp add: run_def)
next
  case (Cons ev evs)
  from Cons.prems have st: "idle (step p s ev) \<and> onCompleteCalls (step p s ev) = onCompleteCalls s"
    by (simp add: step_idle)
  from Cons.prems have "list_all (\<lambda>ev. \<not> isActivation ev) evs" by simp
  with st Cons.IH [of "step p s ev"] show ?case by (simp add: run_def)
qed

lemma removeAll_only: "set xs \<subseteq> {h} \<Longrightarrow> removeAll h xs = []"
  by (induction xs) auto

text \<open>
  Unmounting while a frame request is pending and no reset timer is: nothing is left to
  run, so no later frame or timer event calls \<open>onComplete\<close>.
\<close>

lemma unmount_before_complete:
  assumes "animationRef s = Some h" and "h \<noteq> 0" and "set (frameRequests s) \<subseteq> {h}"
    and "resetTimers s = 0" and "list_all (\<lambda>ev. \<not> isActivation ev) evs"
  shows "frameRequests (run p s (Unmount # evs)) = []
    \<and> onCompleteCalls (run p s (Unmount # evs)) = onCompleteCalls s"
proof -
  have "removeAll h (frameRequests s) = []"
    using assms(3) by (rule removeAll_only)
  then have "idle (step p s Unmount)"
    using assms(1,2,4) by (simp add: idle_def cleanup_def cancelAnimationFrame_def)
  moreover have "onCompleteCalls (step p s Unmount) = onCompleteCalls s"
    by (simp add: cleanup_def cancelAnimationFrame_def split: option.splits)
  ultimately show ?thesis
    using run_idle [of "step p s Unmount" evs p] assms(5) by (simp add: run_def idle_def)
qed

text \<open>
  Claim C4 says that unmounting never leads to a call of \<open>onComplete\<close>, also when the run
  has reached Complete and its reset is scheduled. The cleanup cancels only the frame
  request: after the tick that reaches Complete, an unmount leaves the reset timer
  pending, and when the timer fires \<open>onComplete\<close> is called.
\<close>

theorem unmount_after_complete_calls_onComplete:
  "animationPhase (run leftProps mounted
      [IsActiveChanged True 1000 0.5 1000, AnimationFrame 1500, AnimationFrame 2500,
       AnimationFrame 3000]) = Complete
   \<and> resetTimers (run leftProps mounted
      [IsActiveChanged True 1000 0.5 1000, AnimationFrame 1500, AnimationFrame 2500,
       AnimationFrame 3000, Unmount]) = 1
   \<and> onCompleteCalls (run leftProps mounted
      [IsActiveChanged True 1000 0.5 1000, AnimationFrame 1500, AnimationFrame 2500,
       AnimationFrame 3000, Unmount]) = 0
   \<and> onCompleteCalls (run leftProps mounted
      [IsActiveChanged True 1000 0.5 1000, AnimationFrame 1500, AnimationFrame 2500,
       AnimationFrame 3000, Unmount, ResetTimer]) = 1"
  by (simp add: controller_defs input_defs)

text \<open>
  Claim C5. When \<open>isDisintegrating\<close> is true, the effect of the prop \<open>isActive\<close> changes
  nothing at all, whatever the new value, the clock and the random number are: the start
  time, the seed, the frame requests and every other part of the state stay as they are.
\<close>

theorem isActiveEffect_reentrant:
  assumes "isDisintegrating s"
  shows "isActiveEffect p a now rnd now2 s = s
    \<and> step p s (IsActiveChanged a now rnd now2) = s"
  using assms by (simp add: isActiveEffect_def)

theorem isActiveEffect_reentrant_witness:
  "isDisintegrating (run leftProps mounted [IsActiveChanged True 1000 0.5 1000])
   \<and> step leftProps (run leftProps mounted [IsActiveChanged True 1000 0.5 1000])
        (IsActiveChanged True 1500 (1/4) 1500)
      = run leftProps mounted [IsActiveChanged True 1000 0.5 1000]
   \<and> startTimeRef (run leftProps mounted
        [IsActiveChanged True 1000 0.5 1000, IsActiveChanged True 1500 (1/4) 1500]) = Some 1000
   \<and> map_option seed (filterRef (run leftProps mounted
        [IsActiveChanged True 1000 0.5 1000, IsActiveChanged True 1500 (1/4) 1500]))
      = Some (Some 500)
   \<and> frameRequests (run leftProps mounted
        [IsActiveChanged True 1000 0.5 1000, IsActiveChanged True 1500 (1/4) 1500]) = [1]"
proof -
  have h: "isDisintegrating (run leftProps mounted [IsActiveChanged True 1000 0.5 1000])"
    by (simp add: controller_defs input_defs)
  have r: "run leftProps mounted [IsActiveChanged True 1000 0.5 1000, IsActiveChanged True 1500 (1/4) 1500]
    = step leftProps (run leftProps mounted [IsActiveChanged True 1000 0.5 1000])
        (IsActiveChanged True 1500 (1/4) 1500)"
    by (simp add: run_def)
  have v: "startTimeRef (run leftProps mounted [IsActiveChanged True 1000 0.5 1000]) = Some 1000
    \<and> map_option seed (filterRef (run leftProps mounted [IsActiveChanged True 1000 0.5 1000]))
        = Some (Some 500)
    \<and> frameRequests (run leftProps mounted [IsActiveChanged True 1000 0.5 1000]) = [1]"
    by (simp add: controller_defs input_defs)
  from h v isActiveEffect_reentrant [OF h, of leftProps True 1500 "1/4" 1500]
  show ?thesis by (simp only: r)
qed

text \<open>
  Claim C8. Direction \<open>Left\<close> maps to \<open>xAngle = 0\<close>, \<open>yAngle = 1\<close>. A tick of a started run
  with a direction other than \<open>Random\<close> and the filter attached writes the x selector
  \<open>R\<close> when \<open>xAngle\<close> is not 0 and \<open>A\<close> otherwise, and the y selector \<open>G\<close> when \<open>yAngle\<close> is
  not 0 and \<open>A\<close> otherwise; for \<open>Left\<close> these are \<open>A\<close> and \<open>G\<close>.
\<close>

theorem animate_channel_selectors:
  assumes "direction p \<noteq> Random" and "filterRef s = Some f"
    and "startTimeRef s = Some t" and "t \<noteq> 0"
  shows "getDirectionAngles Left = \<lparr>xAngle = 0, yAngle = 1\<rparr>
    \<and> map_option xChannelSelector (filterRef (animate p now s))
        = Some (if xAngle (getDirectionAngles (direction p)) \<noteq> 0 then ''R'' else ''A'')
    \<and> map_option yChannelSelector (filterRef (animate p now s))
        = Some (if yAngle (getDirectionAngles (direction p)) \<noteq> 0 then ''G'' else ''A'')
    \<and> (direction p = Left \<longrightarrow>
         map_option xChannelSelector (filterRef (animate p now s)) = Some ''A''
         \<and> map_option yChannelSelector (filterRef (animate p now s)) = Some ''G'')"
  using assms by (simp add: animate_def requestAnimationFrame_def Let_def)

theorem animate_channel_selectors_witness:
  "direction leftProps \<noteq> Random
   \<and> filterRef (mounted\<lparr>isDisintegrating := True, startTimeRef := Some 1000\<rparr>)
       = Some renderedFilter
   \<and> startTimeRef (mounted\<lparr>isDisintegrating := True, startTimeRef := Some 1000\<rparr>)
       = Some 1000
   \<and> (1000::real) \<noteq> 0
   \<and> xChannelSelector renderedFilter = ''G'' \<and> yChannelSelector renderedFilter = ''R''
   \<and> map_option xChannelSelector (filterRef (animate leftProps 1500
         (mounted\<lparr>isDisintegrating := True, startTimeRef := Some 1000\<rparr>))) = Some ''A''
   \<and> map_option yChannelSelector (filterRef (animate leftProps 1500
         (mounted\<lparr>isDisintegrating := True, startTimeRef := Some 1000\<rparr>))) = Some ''G''"
proof -
  have d: "direction leftProps \<noteq> Random" and dl: "direction leftProps = Left"
    by (simp_all add: leftProps_def)
  have f: "filterRef (mounted\<lparr>isDisintegrating := True, startTimeRef := Some 1000\<rparr>)
      = Some renderedFilter"
    by (simp add: mounted_def)
  have t: "startTimeRef (mounted\<lparr>isDisintegrating := True, startTimeRef := Some 1000\<rparr>)
      = Some 1000"
    by simp
  have z: "(1000::real) \<noteq> 0" by simp
  have r: "xChannelSelector renderedFilter = ''G'' \<and> yChannelSelector renderedFilter = ''R''"
    by (simp add: renderedFilter_def)
  from d f t z r dl animate_channel_selectors [OF d f t z, of 1500] show ?thesis
    by simp
qed




section \<open>Properties of rounding\<close>

lemma expo_bounds: "0 < x \<Longrightarrow> 2 powi expo x \<le> x \<and> x < 2 powi (expo x + 1)"
proof (induction x rule: expo.induct)
  case (1 x)
  consider "x < 1" | "2 \<le> x" | "1 \<le> x" "x < 2" by linarith
  then show ?case
  proof cases
    case 1
    with "1.prems" have e: "expo x = expo (2 * x) - 1" by (subst expo.simps) simp
    from 1 "1.prems" "1.IH"(1) have ih: "2 powi expo (2 * x) \<le> 2 * x \<and> 2 * x < 2 powi (expo (2 * x) + 1)"
      by simp
    show ?thesis using ih by (simp add: e power_int_diff power_int_add)
  next
    case 2
    with "1.prems" have e: "expo x = expo (x / 2) + 1" by (subst expo.simps) simp
    from 2 "1.prems" "1.IH"(2) have ih: "2 powi expo (x / 2) \<le> x / 2 \<and> x / 2 < 2 powi (expo (x / 2) + 1)"
      by simp
    show ?thesis using ih by (simp add: e power_int_add)
  next
    case 3
    then have e: "expo x = 0" by (subst expo.simps) simp
    show ?thesis using 3 by (simp add: e)
  qed
qed


lemma pow2_pos: "0 < (2::real) powi a"
  by simp

lemma pow2_mono: "a \<le> b \<Longrightarrow> (2::real) powi a \<le> 2 powi b"
  by (rule power_int_increasing) simp_all

lemma pow2_lessD: "(2::real) powi a < 2 powi b \<Longrightarrow> a < b"
  using pow2_mono [of b a] by (cases "a < b") simp_all

lemma expo_unique:
  assumes "0 < x" and "2 powi e \<le> x" and "x < 2 powi (e + 1)"
  shows "expo x = e"
proof -
  from expo_bounds [OF assms(1)] have b: "2 powi expo x \<le> x" "x < 2 powi (expo x + 1)"
    by simp_all
  have "(2::real) powi expo x < 2 powi (e + 1)" using b(1) assms(3) by simp
  then have "expo x < e + 1" by (rule pow2_lessD)
  moreover have "(2::real) powi e < 2 powi (expo x + 1)" using b(2) assms(2) by simp
  then have "e < expo x + 1" by (rule pow2_lessD)
  ultimately show ?thesis by simp
qed

lemma expo_mono:
  assumes "0 < x" and "x \<le> y"
  shows "expo x \<le> expo y"
proof -
  have y: "0 < y" using assms by simp
  have "(2::real) powi expo x < 2 powi (expo y + 1)"
    using expo_bounds [OF assms(1)] expo_bounds [OF y] assms(2) by simp
  then have "expo x < expo y + 1" by (rule pow2_lessD)
  then show ?thesis by simp
qed

lemma rne_of_int: "rne (of_int k) = k"
  by (simp add: rne_def)

lemma rne_ge_floor: "\<lfloor>q\<rfloor> \<le> rne q"
  by (simp add: rne_def Let_def)

lemma rne_le_floor: "rne q \<le> \<lfloor>q\<rfloor> + 1"
  by (simp add: rne_def Let_def)

lemma rne_mono:
  assumes "q \<le> r"
  shows "rne q \<le> rne r"
proof (cases "\<lfloor>q\<rfloor> = \<lfloor>r\<rfloor>")
  case True
  then show ?thesis using assms by (auto simp: rne_def Let_def)
next
  case False
  then have "\<lfloor>q\<rfloor> < \<lfloor>r\<rfloor>" using floor_mono [OF assms] by simp
  then have "\<lfloor>q\<rfloor> + 1 \<le> \<lfloor>r\<rfloor>" by simp
  with rne_le_floor [of q] rne_ge_floor [of r] show ?thesis by linarith
qed

lemma rne_le_int: "q \<le> of_int k \<Longrightarrow> rne q \<le> k"
  using rne_mono [of q "of_int k"] by (simp add: rne_of_int)

lemma rne_ge_int: "of_int k \<le> q \<Longrightarrow> k \<le> rne q"
  using rne_mono [of "of_int k" q] by (simp add: rne_of_int)

lemma fl_alt: "fl x = sgn x * of_int (rne (\<bar>x\<bar> / 2 powi (bexp x - 52))) * 2 powi (bexp x - 52)"
  by (simp add: fl_def bexp_def Let_def)

lemma fl_pos: "0 < x \<Longrightarrow> fl x = of_int (rne (x / 2 powi (bexp x - 52))) * 2 powi (bexp x - 52)"
  by (simp add: fl_alt)

lemma bexp_mono: "0 < x \<Longrightarrow> x \<le> y \<Longrightarrow> bexp x \<le> bexp y"
  using expo_mono [of x y] by (simp add: bexp_def)

lemma bexp_upper: "0 < x \<Longrightarrow> x < 2 powi (bexp x + 1)"
proof -
  assume x: "0 < x"
  have "expo x + 1 \<le> bexp x + 1" using x by (simp add: bexp_def)
  then have "(2::real) powi (expo x + 1) \<le> 2 powi (bexp x + 1)" by (rule pow2_mono)
  with expo_bounds [OF x] show ?thesis by simp
qed

lemma bexp_lower: "0 < x \<Longrightarrow> - 1022 < bexp x \<Longrightarrow> 2 powi bexp x \<le> x"
proof -
  assume x: "0 < x" and b: "- 1022 < bexp x"
  then have "bexp x = expo x" by (simp add: bexp_def max_def split: if_splits)
  with expo_bounds [OF x] show ?thesis by simp
qed

lemma pow2_split: "(2::real) powi (a + b) = 2 powi a * 2 powi b"
  by (rule power_int_add) simp

lemma pow2_53: "(2::real) powi (e + 1) / 2 powi (e - 52) = of_int (2 ^ 53)"
proof -
  have "e + 1 = (e - 52) + 53" by simp
  then have "(2::real) powi (e + 1) = 2 powi ((e - 52) + 53)" by (rule arg_cong)
  also have "\<dots> = 2 powi (e - 52) * 2 powi 53" by (rule pow2_split)
  finally have "(2::real) powi (e + 1) / 2 powi (e - 52) = 2 powi 53"
    using pow2_pos [of "e - 52"] by simp
  then show ?thesis by simp
qed

lemma pow2_52: "(2::real) powi e / 2 powi (e - 52) = of_int (2 ^ 52)"
proof -
  have "(2::real) powi e = 2 powi ((e - 52) + 52)" by simp
  also have "\<dots> = 2 powi (e - 52) * 2 powi 52" by (rule pow2_split)
  finally have "(2::real) powi e / 2 powi (e - 52) = 2 powi 52"
    using pow2_pos [of "e - 52"] by simp
  then show ?thesis by simp
qed

lemma fl_upper:
  assumes "0 < x"
  shows "fl x \<le> 2 powi (bexp x + 1)"
proof -
  let ?u = "(2::real) powi (bexp x - 52)"
  have "x / ?u \<le> 2 powi (bexp x + 1) / ?u"
    using bexp_upper [OF assms] pow2_pos [of "bexp x - 52"] by (simp add: divide_right_mono)
  then have "x / ?u \<le> of_int (2 ^ 53)" by (simp only: pow2_53)
  then have "rne (x / ?u) \<le> 2 ^ 53" by (rule rne_le_int)
  then have "(of_int (rne (x / ?u)) :: real) \<le> of_int (2 ^ 53)" by (simp only: of_int_le_iff)
  then have "of_int (rne (x / ?u)) * ?u \<le> of_int (2 ^ 53) * ?u"
    using pow2_pos [of "bexp x - 52"] by (simp add: mult_right_mono)
  also have "of_int (2 ^ 53) * ?u = 2 powi (bexp x + 1)"
    using pow2_53 [of "bexp x"] pow2_pos [of "bexp x - 52"] by (simp add: field_simps)
  finally show ?thesis using assms by (simp add: fl_pos)
qed

lemma fl_lower:
  assumes "0 < x" and "- 1022 < bexp x"
  shows "2 powi bexp x \<le> fl x"
proof -
  let ?u = "(2::real) powi (bexp x - 52)"
  have "2 powi bexp x / ?u \<le> x / ?u"
    using bexp_lower [OF assms] pow2_pos [of "bexp x - 52"] by (simp add: divide_right_mono)
  then have "of_int (2 ^ 52) \<le> x / ?u" by (simp only: pow2_52)
  then have "2 ^ 52 \<le> rne (x / ?u)" by (rule rne_ge_int)
  then have "(of_int (2 ^ 52) :: real) \<le> of_int (rne (x / ?u))" by (simp only: of_int_le_iff)
  then have le: "of_int (2 ^ 52) * ?u \<le> of_int (rne (x / ?u)) * ?u"
    using pow2_pos [of "bexp x - 52"] by (simp add: mult_right_mono)
  have "2 powi bexp x = of_int (2 ^ 52) * ?u"
    using pow2_52 [of "bexp x"] pow2_pos [of "bexp x - 52"] by (simp add: field_simps)
  also note le
  also have "of_int (rne (x / ?u)) * ?u = fl x" by (simp only: fl_pos [OF assms(1)])
  finally show ?thesis .
qed

lemma fl_mono_pos:
  assumes "0 < x" and "x \<le> y"
  shows "fl x \<le> fl y"
proof (cases "bexp x = bexp y")
  case True
  let ?u = "(2::real) powi (bexp y - 52)"
  have y: "0 < y" using assms by simp
  have "x / ?u \<le> y / ?u" using assms(2) pow2_pos [of "bexp y - 52"] by (simp add: divide_right_mono)
  then have "rne (x / ?u) \<le> rne (y / ?u)" by (rule rne_mono)
  then have "(of_int (rne (x / ?u)) :: real) \<le> of_int (rne (y / ?u))" by (simp only: of_int_le_iff)
  then have "of_int (rne (x / ?u)) * ?u \<le> of_int (rne (y / ?u)) * ?u"
    using pow2_pos [of "bexp y - 52"] by (simp add: mult_right_mono)
  then show ?thesis using assms(1) y True by (simp add: fl_pos)
next
  case False
  have y: "0 < y" using assms by simp
  from False bexp_mono [OF assms] have lt: "bexp x < bexp y" by simp
  have "- 1022 \<le> bexp x" by (simp add: bexp_def)
  with lt have n: "- 1022 < bexp y" by simp
  have "fl x \<le> 2 powi (bexp x + 1)" using assms(1) by (rule fl_upper)
  also have "\<dots> \<le> 2 powi bexp y" using lt by (intro pow2_mono) simp
  also have "\<dots> \<le> fl y" using y n by (rule fl_lower)
  finally show ?thesis .
qed

lemma fl_0: "fl 0 = 0"
  by (simp add: fl_def)

lemma fl_minus: "fl (- x) = - fl x"
  by (simp add: fl_alt bexp_def sgn_minus)

lemma fl_nonneg: "0 \<le> x \<Longrightarrow> 0 \<le> fl x"
proof -
  assume x: "0 \<le> x"
  have "0 \<le> x / 2 powi (bexp x - 52)" using x pow2_pos [of "bexp x - 52"] by simp
  then have "of_int 0 \<le> x / 2 powi (bexp x - 52)" by simp
  then have "0 \<le> rne (x / 2 powi (bexp x - 52))" by (rule rne_ge_int)
  then show ?thesis using x pow2_pos [of "bexp x - 52"] by (simp add: fl_alt sgn_if)
qed

lemma fl_mono:
  assumes "x \<le> y"
  shows "fl x \<le> fl y"
proof -
  consider "0 < x" | "x \<le> 0" "0 \<le> y" | "y < 0" by linarith
  then show ?thesis
  proof cases
    case 1
    then show ?thesis using assms by (rule fl_mono_pos)
  next
    case 2
    from 2(1) have "0 \<le> fl (- x)" by (intro fl_nonneg) simp
    then have "fl x \<le> 0" by (simp add: fl_minus)
    also have "0 \<le> fl y" using 2(2) by (rule fl_nonneg)
    finally show ?thesis .
  next
    case 3
    then have "0 < - y" "- y \<le> - x" using assms by simp_all
    then have "fl (- y) \<le> fl (- x)" by (rule fl_mono_pos)
    then show ?thesis by (simp add: fl_minus)
  qed
qed


lemma pow2_leD: "(2::real) powi a \<le> 2 powi b \<Longrightarrow> a \<le> b"
  using power_int_strict_increasing [of b a "2::real"] by (cases "a \<le> b") simp_all

lemma rne_quotient_bounds:
  assumes "0 < x"
  shows "0 \<le> rne (x / 2 powi (bexp x - 52)) \<and> rne (x / 2 powi (bexp x - 52)) \<le> 2 ^ 53"
proof -
  let ?u = "(2::real) powi (bexp x - 52)"
  have "x / ?u \<le> 2 powi (bexp x + 1) / ?u"
    using bexp_upper [OF assms] pow2_pos [of "bexp x - 52"] by (simp add: divide_right_mono)
  then have "x / ?u \<le> of_int (2 ^ 53)" by (simp only: pow2_53)
  then have a: "rne (x / ?u) \<le> 2 ^ 53" by (rule rne_le_int)
  have "0 \<le> x / ?u" using assms pow2_pos [of "bexp x - 52"] by simp
  then have "of_int 0 \<le> x / ?u" by simp
  then have "0 \<le> rne (x / ?u)" by (rule rne_ge_int)
  with a show ?thesis by simp
qed

text \<open>A number \<open>m * 2^k\<close> with \<open>|m| \<le> 2^53\<close> and \<open>k \<ge> -1074\<close> is a double.\<close>

lemma fl_repr_pos:
  assumes "0 < m" and "m \<le> 2 ^ 53" and "- 1074 \<le> k"
  shows "fl (of_int m * 2 powi k) = of_int m * 2 powi k"
proof -
  define x :: real where "x = of_int m * 2 powi k"
  define e where "e = bexp x"
  let ?u = "(2::real) powi (e - 52)"
  have x: "0 < x" using assms(1) pow2_pos [of k] by (simp add: x_def)
  have u: "0 < ?u" by (rule pow2_pos)
  have "\<exists>j::int. x / ?u = of_int j"
  proof (cases "e - 52 \<le> k")
    case True
    define n where "n = nat (k - (e - 52))"
    have "k = (e - 52) + (k - (e - 52))" by simp
    then have "(2::real) powi k = 2 powi ((e - 52) + (k - (e - 52)))" by (rule arg_cong)
    also have "\<dots> = ?u * 2 powi (k - (e - 52))" by (rule pow2_split)
    also have "(2::real) powi (k - (e - 52)) = 2 ^ n"
      using True by (simp add: n_def power_int_nonneg_exp)
    finally have "x = of_int m * (?u * 2 ^ n)" by (simp add: x_def)
    then have "x / ?u = of_int m * 2 ^ n" using u by simp
    also have "\<dots> = of_int (m * 2 ^ n)" by simp
    finally show ?thesis by blast
  next
    case False
    then have lt: "k + 52 < e" by simp
    with assms(3) have "- 1022 < e" by simp
    then have "2 powi e \<le> x" unfolding e_def using x by (intro bexp_lower) simp_all
    moreover have "x \<le> of_int (2 ^ 53) * 2 powi k"
      unfolding x_def using assms(2) pow2_pos [of k] by (intro mult_right_mono) simp_all
    moreover have p: "of_int (2 ^ 53) * (2::real) powi k = 2 powi (k + 53)"
      using pow2_split [of k 53] by simp
    ultimately have "(2::real) powi e \<le> 2 powi (k + 53)" by simp
    then have "e \<le> k + 53" by (rule pow2_leD)
    with lt have e: "e = k + 53" by simp
    have "2 powi (k + 53) \<le> x" using \<open>2 powi e \<le> x\<close> by (simp only: e)
    then have "of_int (2 ^ 53) * (2::real) powi k \<le> of_int m * 2 powi k"
      by (simp only: p x_def)
    then have "(of_int (2 ^ 53) :: real) \<le> of_int m"
      using pow2_pos [of k] by (simp only: mult_le_cancel_right_pos)
    then have "2 ^ 53 \<le> m" by (simp only: of_int_le_iff)
    with assms(2) have m: "m = 2 ^ 53" by simp
    have "e - 52 = k + 1" using e by simp
    then have "?u = 2 powi (k + 1)" by (rule arg_cong)
    also have "\<dots> = 2 powi k * 2" using pow2_split [of k 1] by simp
    finally have "x / ?u = of_int (2 ^ 53) * 2 powi k / (2 powi k * 2)"
      by (simp add: x_def m)
    also have "\<dots> = of_int (2 ^ 52)" using pow2_pos [of k] by simp
    finally show ?thesis by blast
  qed
  then obtain j :: int where j: "x / ?u = of_int j" by blast
  then have "rne (x / ?u) = j" by (simp only: rne_of_int)
  then have "fl x = of_int j * ?u" using x by (simp add: fl_pos e_def)
  also have "\<dots> = x" using j u by (simp add: field_simps)
  finally show ?thesis by (simp only: x_def)
qed

lemma fl_repr:
  assumes "\<bar>m\<bar> \<le> 2 ^ 53" and "- 1074 \<le> k"
  shows "fl (of_int m * 2 powi k) = of_int m * 2 powi k"
proof -
  consider "0 < m" | "m = 0" | "m < 0" by linarith
  then show ?thesis
  proof cases
    case 1
    with assms show ?thesis by (intro fl_repr_pos) simp_all
  next
    case 2
    then show ?thesis by (simp add: fl_0)
  next
    case 3
    with assms have "fl (of_int (- m) * 2 powi k) = of_int (- m) * 2 powi k"
      by (intro fl_repr_pos) simp_all
    then have "fl (- (of_int m * 2 powi k)) = - (of_int m * 2 powi k)" by simp
    then show ?thesis by (simp only: fl_minus neg_equal_iff_equal)
  qed
qed

lemma fl_of_int: "\<bar>n\<bar> \<le> 2 ^ 53 \<Longrightarrow> fl (of_int n) = of_int n"
  using fl_repr [of n 0] by simp

lemma fl_idem_pos:
  assumes "0 < x"
  shows "fl (fl x) = fl x"
proof -
  have "- 1022 \<le> bexp x" by (simp add: bexp_def)
  then have k: "- 1074 \<le> bexp x - 52" by simp
  from rne_quotient_bounds [OF assms]
  have "\<bar>rne (x / 2 powi (bexp x - 52))\<bar> \<le> 2 ^ 53" by simp
  then have "fl (of_int (rne (x / 2 powi (bexp x - 52))) * 2 powi (bexp x - 52))
      = of_int (rne (x / 2 powi (bexp x - 52))) * 2 powi (bexp x - 52)"
    using k by (rule fl_repr)
  then show ?thesis by (simp only: fl_pos [OF assms])
qed

lemma fl_idem: "fl (fl x) = fl x"
proof -
  consider "0 < x" | "x = 0" | "x < 0" by linarith
  then show ?thesis
  proof cases
    case 1
    then show ?thesis by (rule fl_idem_pos)
  next
    case 2
    then show ?thesis by (simp add: fl_0)
  next
    case 3
    then have "fl (fl (- x)) = fl (- x)" by (intro fl_idem_pos) simp
    then show ?thesis by (simp add: fl_minus)
  qed
qed

section \<open>The phase clock in double arithmetic\<close>

lemmas fl_eval = fl_def rne_def expo.simps Let_def

lemma fl_1: "fl 1 = 1"
  using fl_of_int [of 1] by simp

lemma isDouble_fl: "isDouble x \<Longrightarrow> fl x = x"
  by (simp add: isDouble_def)

lemma fl_ge_double: "fl a = a \<Longrightarrow> 0 \<le> d \<Longrightarrow> a \<le> fl (a + d)"
  using fl_mono [of a "a + d"] by simp

lemma orDefault_double:
  "doubleNonNegative x \<Longrightarrow> fl d = d \<Longrightarrow> fl (orDefault x d) = orDefault x d"
  by (cases x) (simp_all add: isDouble_fl)

lemma orDefault_nonnegD: "doubleNonNegative x \<Longrightarrow> 0 \<le> d \<Longrightarrow> 0 \<le> orDefault x d"
  by (cases x) simp_all

text \<open>
  Claim C1, amended. For every timing configuration of non-negative doubles and every
  elapsed time at or beyond the total duration as the code computes it (the four
  durations added from left to right in double arithmetic), \<open>getPhaseProgress\<close> returns
  the pair (Complete, 1).
\<close>

theorem getPhaseProgressD_complete:
  assumes "validTimingD tm" and "totalDurationD tm \<le> elapsed"
  shows "getPhaseProgressD tm elapsed = \<lparr>phase = Complete, progress = Finite 1\<rparr>"
proof -
  define d0 where "d0 = orDefault (initialDelay tm) 200"
  define d1 where "d1 = orDefault (fadeInDuration tm) 400"
  define d2 where "d2 = orDefault (holdDuration tm) 200"
  define d3 where "d3 = orDefault (fadeOutDuration tm) 1200"
  have "fl 200 = 200" using fl_of_int [of 200] by simp
  then have f0: "fl d0 = d0"
    using assms(1) unfolding d0_def validTimingD_def by (intro orDefault_double) simp_all
  have n1: "0 \<le> d1" and n2: "0 \<le> d2" and n3: "0 \<le> d3"
    using assms(1) by (simp_all add: validTimingD_def d1_def d2_def d3_def orDefault_nonnegD)
  have b1: "d0 \<le> fl (d0 + d1)" using f0 n1 by (rule fl_ge_double)
  have b2: "fl (d0 + d1) \<le> fl (fl (d0 + d1) + d2)" using fl_idem n2 by (rule fl_ge_double)
  have b3: "fl (fl (d0 + d1) + d2) \<le> fl (fl (fl (d0 + d1) + d2) + d3)"
    using fl_idem n3 by (rule fl_ge_double)
  have t: "totalDurationD tm = fl (fl (fl (d0 + d1) + d2) + d3)"
    by (simp add: totalDurationD_def d0_def d1_def d2_def d3_def)
  from assms(2) b1 b2 b3 show ?thesis
    unfolding getPhaseProgressD_def Let_def t d0_def [symmetric] d1_def [symmetric]
      d2_def [symmetric] d3_def [symmetric]
    by simp
qed

theorem getPhaseProgressD_complete_witness:
  "validTimingD defaultTiming \<and> totalDurationD defaultTiming \<le> 2000
   \<and> totalDurationD defaultTiming = 2000
   \<and> getPhaseProgressD defaultTiming 2000 = \<lparr>phase = Complete, progress = Finite 1\<rparr>
   \<and> validTimingD tenthsTiming
   \<and> totalDurationD tenthsTiming = 4053239664633447 / 4503599627370496
   \<and> getPhaseProgressD tenthsTiming (4053239664633447 / 4503599627370496)
       = \<lparr>phase = Complete, progress = Finite 1\<rparr>"
proof -
  have v: "validTimingD defaultTiming"
    by (simp add: validTimingD_def defaultTiming_def isDouble_def fl_eval)
  have t: "totalDurationD defaultTiming = 2000"
    by (simp add: totalDurationD_def defaultTiming_def fl_eval)
  then have le: "totalDurationD defaultTiming \<le> 2000" by simp
  have v': "validTimingD tenthsTiming"
    by (simp add: validTimingD_def tenthsTiming_def isDouble_def fl_eval)
  have t': "totalDurationD tenthsTiming = 4053239664633447 / 4503599627370496"
    by (simp add: totalDurationD_def tenthsTiming_def fl_eval)
  then have le': "totalDurationD tenthsTiming \<le> 4053239664633447 / 4503599627370496"
    by simp
  from v t le v' t' getPhaseProgressD_complete [OF v le] getPhaseProgressD_complete [OF v' le']
  show ?thesis by simp
qed

text \<open>
  Claim C1 says that every elapsed time at or beyond the sum of the four durations is
  classified (Complete, 1). The code compares with the sum it computes in doubles, which
  can exceed the sum of the durations: with the durations 0.1, 0.2, 0.3 and 0.3 the
  computed total is 0.9000000000000001, and the elapsed time 0.9, which is at least the
  sum of the four durations, is classified FadeOut with progress 1.0000000000000004.
\<close>

theorem getPhaseProgress_complete_counterexample:
  "validTimingD tenthsTiming \<and> validTiming tenthsTiming
   \<and> totalDuration tenthsTiming \<le> fl (9 / 10)
   \<and> 1 / 10 + 2 / 10 + 3 / 10 + 3 / 10 \<le> fl (9 / 10)
   \<and> isDouble (fl (9 / 10))
   \<and> fl (9 / 10) < totalDurationD tenthsTiming
   \<and> getPhaseProgressD tenthsTiming (fl (9 / 10))
       = \<lparr>phase = FadeOut, progress = Finite (4503599627370498 / 4503599627370496)\<rparr>"
  by (simp add: validTimingD_def validTiming_def tenthsTiming_def isDouble_def totalDuration_def
      getPhaseProgressD_def totalDurationD_def js_divD_def flN_def fl_eval)

section \<open>The intensity in double arithmetic\<close>

lemma c3_val: "fl (3 / 10) = 5404319552844595 / 18014398509481984"
  by (simp add: fl_eval)

lemma c7_val: "fl (7 / 10) = 3152519739159347 / 4503599627370496"
  by (simp add: fl_eval)

lemma c3_bounds: "0 \<le> fl (3 / 10) \<and> fl (3 / 10) \<le> 1"
  by (simp add: c3_val)

lemma c7_bounds: "0 \<le> fl (7 / 10) \<and> fl (7 / 10) \<le> 1"
  by (simp add: c7_val)

lemma c3_c7: "fl (fl (3 / 10) + fl (7 / 10)) = 1"
  by (simp add: fl_eval)

lemma fl_unit: "0 \<le> x \<Longrightarrow> x \<le> 1 \<Longrightarrow> 0 \<le> fl x \<and> fl x \<le> 1"
  using fl_nonneg [of x] fl_mono [of x 1] by (simp add: fl_1)

lemma flN_unit: "0 \<le> x \<Longrightarrow> x \<le> 1 \<Longrightarrow> flN x = Finite (fl x)"
proof -
  assume "0 \<le> x" "x \<le> 1"
  then have "0 \<le> fl x \<and> fl x \<le> 1" by (rule fl_unit)
  moreover have "(1::real) < 2 ^ 1024" by simp
  ultimately have "\<bar>fl x\<bar> < 2 ^ 1024" by linarith
  then show ?thesis by (simp add: flN_def)
qed

lemma mult_unit: "0 \<le> x \<Longrightarrow> x \<le> 1 \<Longrightarrow> 0 \<le> y \<Longrightarrow> y \<le> 1 \<Longrightarrow> 0 \<le> x * y \<and> x * y \<le> (1::real)"
  by (simp add: mult_le_one)

lemma cubeD_unit:
  assumes "0 \<le> t" and "t \<le> 1"
  shows "0 \<le> cubeD t \<and> cubeD t \<le> 1"
proof -
  have "0 \<le> t * t \<and> t * t \<le> 1" using assms by (intro mult_unit) simp_all
  then have "0 \<le> fl (t * t) \<and> fl (t * t) \<le> 1" by (intro fl_unit) simp_all
  then have "0 \<le> fl (t * t) * t \<and> fl (t * t) * t \<le> 1" using assms by (intro mult_unit) simp_all
  then show ?thesis unfolding cubeD_def by (intro fl_unit) simp_all
qed

lemma cubeD_mono:
  assumes "0 \<le> s" and "s \<le> t"
  shows "cubeD s \<le> cubeD t"
proof -
  have "s * s \<le> t * t" using assms by (intro mult_mono) simp_all
  then have a: "fl (s * s) \<le> fl (t * t)" by (rule fl_mono)
  have "0 \<le> s * s" using assms by simp
  then have "0 \<le> fl (s * s)" by (rule fl_nonneg)
  with a assms have "fl (s * s) * s \<le> fl (t * t) * t" by (intro mult_mono) simp_all
  then show ?thesis unfolding cubeD_def by (rule fl_mono)
qed

lemma easeInCubicD_unit:
  "0 \<le> t \<Longrightarrow> t \<le> 1 \<Longrightarrow> easeInCubicD (Finite t) = Finite (cubeD t)"
proof -
  assume t: "0 \<le> t" "t \<le> 1"
  have a: "0 \<le> t * t \<and> t * t \<le> 1" using t by (intro mult_unit) simp_all
  then have b: "0 \<le> fl (t * t) \<and> fl (t * t) \<le> 1" by (intro fl_unit) simp_all
  then have c: "0 \<le> fl (t * t) * t \<and> fl (t * t) * t \<le> 1" using t by (intro mult_unit) simp_all
  show ?thesis using a c by (simp add: easeInCubicD_def flN_unit cubeD_def)
qed

lemma progressFI_unit:
  assumes "0 < d1" and "fl d1 = d1" and "d0 \<le> e" and "e \<le> d0 + d1"
  shows "0 \<le> fl (e - d0) / d1 \<and> fl (e - d0) / d1 \<le> 1"
proof -
  have "0 \<le> fl (e - d0)" using assms(3) by (intro fl_nonneg) simp
  moreover have "fl (e - d0) \<le> fl d1" using assms(4) by (intro fl_mono) simp
  ultimately show ?thesis using assms(1,2) by simp
qed

lemma progressFI_mono:
  assumes "0 < d1" and "e1 \<le> e2"
  shows "progressFI d0 d1 e1 \<le> progressFI d0 d1 e2"
proof -
  have "fl (e1 - d0) \<le> fl (e2 - d0)" using assms(2) by (intro fl_mono) simp
  then have "fl (e1 - d0) / d1 \<le> fl (e2 - d0) / d1"
    using assms(1) by (simp add: divide_right_mono)
  then show ?thesis unfolding progressFI_def by (rule fl_mono)
qed

lemma progressFO_unit:
  assumes "0 < d3" and "fl d3 = d3" and "fl d2 = d2" and "fl (d2 + d3) = d2 + d3"
    and "fl (d1 + d2) = d1 + d2" and "fl (d1 + d2 + d3) = d1 + d2 + d3"
    and "d0 + d1 + d2 \<le> e" and "e \<le> d0 + d1 + d2 + d3"
  shows "0 \<le> fl (fl (fl (e - d0) - d1) - d2) / d3 \<and> fl (fl (fl (e - d0) - d1) - d2) / d3 \<le> 1"
proof -
  have "fl (d1 + d2) \<le> fl (e - d0)" using assms(7) by (intro fl_mono) simp
  then have a1: "d1 + d2 \<le> fl (e - d0)" by (simp only: assms(5))
  have "fl (e - d0) \<le> fl (d1 + d2 + d3)" using assms(8) by (intro fl_mono) simp
  then have a2: "fl (e - d0) \<le> d1 + d2 + d3" by (simp only: assms(6))
  have "fl d2 \<le> fl (fl (e - d0) - d1)" using a1 by (intro fl_mono) simp
  then have b1: "d2 \<le> fl (fl (e - d0) - d1)" by (simp only: assms(3))
  have "fl (fl (e - d0) - d1) \<le> fl (d2 + d3)" using a2 by (intro fl_mono) simp
  then have b2: "fl (fl (e - d0) - d1) \<le> d2 + d3" by (simp only: assms(4))
  have c1: "0 \<le> fl (fl (fl (e - d0) - d1) - d2)" using b1 by (intro fl_nonneg) simp
  have "fl (fl (fl (e - d0) - d1) - d2) \<le> fl d3" using b2 by (intro fl_mono) simp
  then have c2: "fl (fl (fl (e - d0) - d1) - d2) \<le> d3" by (simp only: assms(2))
  from c1 c2 assms(1) show ?thesis by simp
qed

lemma progressFO_mono:
  assumes "0 < d3" and "e1 \<le> e2"
  shows "progressFO d0 d1 d2 d3 e1 \<le> progressFO d0 d1 d2 d3 e2"
proof -
  have "fl (e1 - d0) \<le> fl (e2 - d0)" using assms(2) by (intro fl_mono) simp
  then have "fl (fl (e1 - d0) - d1) \<le> fl (fl (e2 - d0) - d1)" by (intro fl_mono) simp
  then have "fl (fl (fl (e1 - d0) - d1) - d2) \<le> fl (fl (fl (e2 - d0) - d1) - d2)"
    by (intro fl_mono) simp
  then have "fl (fl (fl (e1 - d0) - d1) - d2) / d3 \<le> fl (fl (fl (e2 - d0) - d1) - d2) / d3"
    using assms(1) by (simp add: divide_right_mono)
  then show ?thesis unfolding progressFO_def by (rule fl_mono)
qed


lemma fadeInD_unit:
  assumes "0 \<le> p" and "p \<le> 1"
  shows "0 \<le> cubeD p * fl (3 / 10) \<and> cubeD p * fl (3 / 10) \<le> 1
    \<and> 0 \<le> fl (cubeD p * fl (3 / 10)) \<and> fl (cubeD p * fl (3 / 10)) \<le> fl (3 / 10)"
proof -
  from cubeD_unit [OF assms] have c: "0 \<le> cubeD p" "cubeD p \<le> 1" by simp_all
  have a: "0 \<le> cubeD p * fl (3 / 10) \<and> cubeD p * fl (3 / 10) \<le> 1"
    using c c3_bounds by (intro mult_unit) simp_all
  have "cubeD p * fl (3 / 10) \<le> 1 * fl (3 / 10)"
    using c(2) c3_bounds by (intro mult_right_mono) simp_all
  then have "fl (cubeD p * fl (3 / 10)) \<le> fl (1 * fl (3 / 10))" by (rule fl_mono)
  then have "fl (cubeD p * fl (3 / 10)) \<le> fl (3 / 10)" by (simp add: fl_idem)
  moreover have "0 \<le> fl (cubeD p * fl (3 / 10))" using a by (intro fl_nonneg) simp
  ultimately show ?thesis using a by simp
qed

lemma fadeInD_mono:
  assumes "0 \<le> p" and "p \<le> q"
  shows "fl (cubeD p * fl (3 / 10)) \<le> fl (cubeD q * fl (3 / 10))"
proof -
  have "cubeD p \<le> cubeD q" using assms by (rule cubeD_mono)
  then have "cubeD p * fl (3 / 10) \<le> cubeD q * fl (3 / 10)"
    using c3_bounds by (intro mult_right_mono) simp_all
  then show ?thesis by (rule fl_mono)
qed

lemma fadeOutD_unit:
  assumes "0 \<le> p" and "p \<le> 1"
  shows "0 \<le> p * fl (7 / 10) \<and> p * fl (7 / 10) \<le> 1
    \<and> 0 \<le> fl (3 / 10) + fl (p * fl (7 / 10)) \<and> fl (3 / 10) + fl (p * fl (7 / 10)) \<le> 1
    \<and> fl (3 / 10) \<le> fl (fl (3 / 10) + fl (p * fl (7 / 10)))
    \<and> fl (fl (3 / 10) + fl (p * fl (7 / 10))) \<le> 1"
proof -
  have a: "0 \<le> p * fl (7 / 10) \<and> p * fl (7 / 10) \<le> 1"
    using assms c7_bounds by (intro mult_unit) simp_all
  have "p * fl (7 / 10) \<le> 1 * fl (7 / 10)"
    using assms(2) c7_bounds by (intro mult_right_mono) simp_all
  then have "fl (p * fl (7 / 10)) \<le> fl (1 * fl (7 / 10))" by (rule fl_mono)
  then have m2: "fl (p * fl (7 / 10)) \<le> fl (7 / 10)" by (simp add: fl_idem)
  have m1: "0 \<le> fl (p * fl (7 / 10))" using a by (intro fl_nonneg) simp
  have s: "fl (3 / 10) + fl (7 / 10) \<le> 1" by (simp add: c3_val c7_val)
  have b: "0 \<le> fl (3 / 10) + fl (p * fl (7 / 10)) \<and> fl (3 / 10) + fl (p * fl (7 / 10)) \<le> 1"
    using m1 m2 s c3_bounds by simp
  have "fl (fl (3 / 10)) \<le> fl (fl (3 / 10) + fl (p * fl (7 / 10)))"
    using m1 by (intro fl_mono) simp
  then have lo: "fl (3 / 10) \<le> fl (fl (3 / 10) + fl (p * fl (7 / 10)))"
    by (simp only: fl_idem)
  have "fl (fl (3 / 10) + fl (p * fl (7 / 10))) \<le> fl (fl (3 / 10) + fl (7 / 10))"
    using m2 by (intro fl_mono) simp
  then have hi: "fl (fl (3 / 10) + fl (p * fl (7 / 10))) \<le> 1" by (simp only: c3_c7)
  from a b lo hi show ?thesis by simp
qed

lemma fadeOutD_mono:
  assumes "p \<le> q"
  shows "fl (fl (3 / 10) + fl (p * fl (7 / 10))) \<le> fl (fl (3 / 10) + fl (q * fl (7 / 10)))"
proof -
  have "p * fl (7 / 10) \<le> q * fl (7 / 10)"
    using assms c7_bounds by (intro mult_right_mono) simp_all
  then have "fl (p * fl (7 / 10)) \<le> fl (q * fl (7 / 10))" by (rule fl_mono)
  then show ?thesis by (intro fl_mono) simp
qed

lemma progressFI_range:
  assumes "exactDurations d0 d1 d2 d3" and "d0 \<le> e" and "e < d0 + d1"
  shows "0 \<le> fl (e - d0) / d1 \<and> fl (e - d0) / d1 \<le> 1
    \<and> 0 \<le> progressFI d0 d1 e \<and> progressFI d0 d1 e \<le> 1"
proof -
  have q: "0 \<le> fl (e - d0) / d1 \<and> fl (e - d0) / d1 \<le> 1"
    using assms by (intro progressFI_unit) (simp_all add: exactDurations_def)
  then have "0 \<le> fl (fl (e - d0) / d1) \<and> fl (fl (e - d0) / d1) \<le> 1"
    by (intro fl_unit) simp_all
  with q show ?thesis by (simp add: progressFI_def)
qed

lemma progressFO_range:
  assumes "exactDurations d0 d1 d2 d3" and "d0 + d1 + d2 \<le> e" and "e < d0 + d1 + d2 + d3"
  shows "0 \<le> fl (fl (fl (e - d0) - d1) - d2) / d3 \<and> fl (fl (fl (e - d0) - d1) - d2) / d3 \<le> 1
    \<and> 0 \<le> progressFO d0 d1 d2 d3 e \<and> progressFO d0 d1 d2 d3 e \<le> 1"
proof -
  have q: "0 \<le> fl (fl (fl (e - d0) - d1) - d2) / d3 \<and> fl (fl (fl (e - d0) - d1) - d2) / d3 \<le> 1"
    using assms by (intro progressFO_unit) (simp_all add: exactDurations_def)
  then have "0 \<le> fl (fl (fl (fl (e - d0) - d1) - d2) / d3)
      \<and> fl (fl (fl (fl (e - d0) - d1) - d2) / d3) \<le> 1"
    by (intro fl_unit) simp_all
  with q show ?thesis by (simp add: progressFO_def)
qed

lemma intensityD_Initial: "e < d0 \<Longrightarrow> intensityD d0 d1 d2 d3 e = 0"
  by (simp add: intensityD_def)

lemma intensityD_FadeIn:
  "d0 \<le> e \<Longrightarrow> e < d0 + d1 \<Longrightarrow>
   intensityD d0 d1 d2 d3 e = fl (cubeD (progressFI d0 d1 e) * fl (3 / 10))"
  by (simp add: intensityD_def)

lemma intensityD_Hold:
  "0 \<le> d1 \<Longrightarrow> d0 + d1 \<le> e \<Longrightarrow> e < d0 + d1 + d2 \<Longrightarrow> intensityD d0 d1 d2 d3 e = fl (3 / 10)"
  by (simp add: intensityD_def)

lemma intensityD_FadeOut:
  "0 \<le> d1 \<Longrightarrow> 0 \<le> d2 \<Longrightarrow> d0 + d1 + d2 \<le> e \<Longrightarrow> e < d0 + d1 + d2 + d3 \<Longrightarrow>
   intensityD d0 d1 d2 d3 e
     = fl (fl (3 / 10) + fl (progressFO d0 d1 d2 d3 e * fl (7 / 10)))"
  by (simp add: intensityD_def)

lemma intensityD_Complete:
  "0 \<le> d1 \<Longrightarrow> 0 \<le> d2 \<Longrightarrow> 0 \<le> d3 \<Longrightarrow> d0 + d1 + d2 + d3 \<le> e \<Longrightarrow>
   intensityD d0 d1 d2 d3 e = 0"
  by (simp add: intensityD_def)

lemma intensityD_early:
  assumes "exactDurations d0 d1 d2 d3" and "e < d0 + d1"
  shows "0 \<le> intensityD d0 d1 d2 d3 e \<and> intensityD d0 d1 d2 d3 e \<le> fl (3 / 10)"
proof (cases "e < d0")
  case True
  then show ?thesis using c3_bounds by (simp add: intensityD_Initial)
next
  case False
  then have le: "d0 \<le> e" by simp
  from progressFI_range [OF assms(1) le assms(2)]
  have p: "0 \<le> progressFI d0 d1 e" "progressFI d0 d1 e \<le> 1" by simp_all
  from fadeInD_unit [OF p] show ?thesis
    by (simp only: intensityD_FadeIn [OF le assms(2)])
qed

lemma intensityD_late:
  assumes "exactDurations d0 d1 d2 d3" and "d0 + d1 \<le> e" and "e < d0 + d1 + d2 + d3"
  shows "fl (3 / 10) \<le> intensityD d0 d1 d2 d3 e \<and> intensityD d0 d1 d2 d3 e \<le> 1"
proof (cases "e < d0 + d1 + d2")
  case True
  then show ?thesis using assms c3_bounds by (simp add: intensityD_Hold exactDurations_def)
next
  case False
  then have le: "d0 + d1 + d2 \<le> e" by simp
  have n: "0 \<le> d1" "0 \<le> d2" using assms(1) by (simp_all add: exactDurations_def)
  from progressFO_range [OF assms(1) le assms(3)]
  have p: "0 \<le> progressFO d0 d1 d2 d3 e" "progressFO d0 d1 d2 d3 e \<le> 1" by simp_all
  from fadeOutD_unit [OF p] show ?thesis
    by (simp only: intensityD_FadeOut [OF n le assms(3)])
qed

lemma intensityD_bounds:
  assumes "exactDurations d0 d1 d2 d3" and "e < d0 + d1 + d2 + d3"
  shows "0 \<le> intensityD d0 d1 d2 d3 e \<and> intensityD d0 d1 d2 d3 e \<le> 1"
proof (cases "e < d0 + d1")
  case True
  from intensityD_early [OF assms(1) True] c3_bounds show ?thesis by linarith
next
  case False
  then have "d0 + d1 \<le> e" by simp
  from intensityD_late [OF assms(1) this assms(2)] c3_bounds show ?thesis by linarith
qed

lemma intensityD_mono:
  assumes "exactDurations d0 d1 d2 d3" and "e1 \<le> e2" and "e2 < d0 + d1 + d2 + d3"
  shows "intensityD d0 d1 d2 d3 e1 \<le> intensityD d0 d1 d2 d3 e2"
proof -
  have pos: "0 < d1" "0 < d3" and n: "0 \<le> d1" "0 \<le> d2"
    using assms(1) by (simp_all add: exactDurations_def)
  consider "e2 < d0" | "d0 \<le> e1" "e2 < d0 + d1" | "e1 < d0" "d0 \<le> e2" "e2 < d0 + d1"
    | "e1 < d0 + d1" "d0 + d1 \<le> e2"
    | "d0 + d1 \<le> e1" "e2 < d0 + d1 + d2"
    | "d0 + d1 \<le> e1" "e1 < d0 + d1 + d2" "d0 + d1 + d2 \<le> e2"
    | "d0 + d1 + d2 \<le> e1"
    by linarith
  then show ?thesis
  proof cases
    case 1
    with assms(2) show ?thesis by (simp add: intensityD_Initial)
  next
    case 2
    then have a: "e1 < d0 + d1" and b: "d0 \<le> e2" using assms(2) by simp_all
    from progressFI_range [OF assms(1) 2(1) a] have "0 \<le> progressFI d0 d1 e1" by simp
    moreover have "progressFI d0 d1 e1 \<le> progressFI d0 d1 e2"
      using pos(1) assms(2) by (rule progressFI_mono)
    ultimately have "fl (cubeD (progressFI d0 d1 e1) * fl (3 / 10))
        \<le> fl (cubeD (progressFI d0 d1 e2) * fl (3 / 10))"
      by (rule fadeInD_mono)
    then show ?thesis
      by (simp only: intensityD_FadeIn [OF 2(1) a] intensityD_FadeIn [OF b 2(2)])
  next
    case 3
    from intensityD_early [OF assms(1) 3(3)] 3(1) show ?thesis
      by (simp add: intensityD_Initial)
  next
    case 4
    from intensityD_early [OF assms(1) 4(1)] intensityD_late [OF assms(1) 4(2) assms(3)]
    show ?thesis by linarith
  next
    case 5
    then have "e1 < d0 + d1 + d2" "d0 + d1 \<le> e2" using assms(2) by simp_all
    with 5 n show ?thesis by (simp add: intensityD_Hold)
  next
    case 6
    from 6(1,2) n have "intensityD d0 d1 d2 d3 e1 = fl (3 / 10)"
      by (simp add: intensityD_Hold)
    moreover have "d0 + d1 \<le> e2" using 6(1) assms(2) by simp
    from intensityD_late [OF assms(1) this assms(3)]
    have "fl (3 / 10) \<le> intensityD d0 d1 d2 d3 e2" by simp
    ultimately show ?thesis by simp
  next
    case 7
    then have b: "d0 + d1 + d2 \<le> e2" and a: "e1 < d0 + d1 + d2 + d3"
      using assms(2,3) by simp_all
    have "progressFO d0 d1 d2 d3 e1 \<le> progressFO d0 d1 d2 d3 e2"
      using pos(2) assms(2) by (rule progressFO_mono)
    then have "fl (fl (3 / 10) + fl (progressFO d0 d1 d2 d3 e1 * fl (7 / 10)))
        \<le> fl (fl (3 / 10) + fl (progressFO d0 d1 d2 d3 e2 * fl (7 / 10)))"
      by (rule fadeOutD_mono)
    then show ?thesis
      by (simp only: intensityD_FadeOut [OF n 7 a] intensityD_FadeOut [OF n b assms(3)])
  qed
qed

lemma fl_whole:
  assumes "of_int n = x" and "0 \<le> x" and "x \<le> 2 ^ 53"
  shows "fl x = x"
proof -
  have "(of_int n :: real) \<le> of_int (2 ^ 53)" using assms(1,3) by simp
  then have "n \<le> 2 ^ 53" by (simp only: of_int_le_iff)
  moreover have "(of_int 0 :: real) \<le> of_int n" using assms(1,2) by simp
  then have "0 \<le> n" by (simp only: of_int_le_iff)
  ultimately have "\<bar>n\<bar> \<le> 2 ^ 53" by simp
  then have "fl (of_int n) = of_int n" by (rule fl_of_int)
  then show ?thesis by (simp only: assms(1))
qed

lemma wholeTiming_exact:
  assumes "wholeTiming tm"
  shows "exactDurations (orDefault (initialDelay tm) 200) (orDefault (fadeInDuration tm) 400)
    (orDefault (holdDuration tm) 200) (orDefault (fadeOutDuration tm) 1200)"
proof -
  define d0 where "d0 = orDefault (initialDelay tm) 200"
  define d1 where "d1 = orDefault (fadeInDuration tm) 400"
  define d2 where "d2 = orDefault (holdDuration tm) 200"
  define d3 where "d3 = orDefault (fadeOutDuration tm) 1200"
  have pos: "0 < d0" "0 < d1" "0 < d2" "0 < d3"
    and w: "of_int \<lfloor>d0\<rfloor> = d0" "of_int \<lfloor>d1\<rfloor> = d1" "of_int \<lfloor>d2\<rfloor> = d2" "of_int \<lfloor>d3\<rfloor> = d3"
    and tot: "d0 + d1 + d2 + d3 \<le> 2 ^ 53"
    using assms
    by (simp_all add: wholeTiming_def wholePositive_def totalDuration_def
        d0_def d1_def d2_def d3_def)
  have "fl d1 = d1" using pos tot by (intro fl_whole [OF w(2)]) simp_all
  moreover have "fl d2 = d2" using pos tot by (intro fl_whole [OF w(3)]) simp_all
  moreover have "fl d3 = d3" using pos tot by (intro fl_whole [OF w(4)]) simp_all
  moreover have "fl (d0 + d1) = d0 + d1"
    using pos tot by (intro fl_whole [of "\<lfloor>d0\<rfloor> + \<lfloor>d1\<rfloor>"]) (simp_all add: w)
  moreover have "fl (d1 + d2) = d1 + d2"
    using pos tot by (intro fl_whole [of "\<lfloor>d1\<rfloor> + \<lfloor>d2\<rfloor>"]) (simp_all add: w)
  moreover have "fl (d2 + d3) = d2 + d3"
    using pos tot by (intro fl_whole [of "\<lfloor>d2\<rfloor> + \<lfloor>d3\<rfloor>"]) (simp_all add: w)
  moreover have "fl (d0 + d1 + d2) = d0 + d1 + d2"
    using pos tot by (intro fl_whole [of "\<lfloor>d0\<rfloor> + \<lfloor>d1\<rfloor> + \<lfloor>d2\<rfloor>"]) (simp_all add: w)
  moreover have "fl (d1 + d2 + d3) = d1 + d2 + d3"
    using pos tot by (intro fl_whole [of "\<lfloor>d1\<rfloor> + \<lfloor>d2\<rfloor> + \<lfloor>d3\<rfloor>"]) (simp_all add: w)
  moreover have "fl (d0 + d1 + d2 + d3) = d0 + d1 + d2 + d3"
    using pos tot
    by (intro fl_whole [of "\<lfloor>d0\<rfloor> + \<lfloor>d1\<rfloor> + \<lfloor>d2\<rfloor> + \<lfloor>d3\<rfloor>"]) (simp_all add: w)
  ultimately show ?thesis
    using pos by (simp add: exactDurations_def d0_def d1_def d2_def d3_def)
qed

lemma intensityAtD_value:
  assumes "exactDurations (orDefault (initialDelay tm) 200) (orDefault (fadeInDuration tm) 400)
    (orDefault (holdDuration tm) 200) (orDefault (fadeOutDuration tm) 1200)"
  shows "totalDurationD tm = totalDuration tm
    \<and> phase (getPhaseProgressD tm e) = phase (getPhaseProgress tm e)
    \<and> intensityAtD tm e = Finite (intensityD (orDefault (initialDelay tm) 200)
        (orDefault (fadeInDuration tm) 400) (orDefault (holdDuration tm) 200)
        (orDefault (fadeOutDuration tm) 1200) e)"
proof -
  define d0 where "d0 = orDefault (initialDelay tm) 200"
  define d1 where "d1 = orDefault (fadeInDuration tm) 400"
  define d2 where "d2 = orDefault (holdDuration tm) 200"
  define d3 where "d3 = orDefault (fadeOutDuration tm) 1200"
  have ex: "exactDurations d0 d1 d2 d3"
    using assms by (simp only: d0_def d1_def d2_def d3_def)
  have pos: "0 < d0" "0 < d1" "0 < d2" "0 < d3"
    and b1: "fl (d0 + d1) = d0 + d1" and b2: "fl (d0 + d1 + d2) = d0 + d1 + d2"
    and b3: "fl (d0 + d1 + d2 + d3) = d0 + d1 + d2 + d3"
    using ex by (simp_all add: exactDurations_def)
  have tD: "totalDurationD tm = d0 + d1 + d2 + d3"
    by (simp add: totalDurationD_def d0_def [symmetric] d1_def [symmetric] d2_def [symmetric]
        d3_def [symmetric] b1 b2 b3)
  have t: "totalDuration tm = d0 + d1 + d2 + d3"
    by (simp add: totalDuration_def d0_def d1_def d2_def d3_def)
  have gD: "getPhaseProgressD tm e =
      (if e < d0 then \<lparr>phase = Initial, progress = js_divD e d0\<rparr>
       else if e < d0 + d1 then \<lparr>phase = FadeIn, progress = js_divD (fl (e - d0)) d1\<rparr>
       else if e < d0 + d1 + d2 then
         \<lparr>phase = Hold, progress = js_divD (fl (fl (e - d0) - d1)) d2\<rparr>
       else if e < d0 + d1 + d2 + d3 then
         \<lparr>phase = FadeOut, progress = js_divD (fl (fl (fl (e - d0) - d1) - d2)) d3\<rparr>
       else \<lparr>phase = Complete, progress = Finite 1\<rparr>)"
    by (simp add: getPhaseProgressD_def Let_def tD d0_def [symmetric] d1_def [symmetric]
        d2_def [symmetric] d3_def [symmetric] b1 b2)
  have ph: "phase (getPhaseProgressD tm e) = phase (getPhaseProgress tm e)"
    by (simp add: gD getPhaseProgress_def Let_def t d0_def [symmetric] d1_def [symmetric]
        d2_def [symmetric] d3_def [symmetric])
  have "intensityAtD tm e = Finite (intensityD d0 d1 d2 d3 e)"
  proof -
    consider "e < d0" | "d0 \<le> e" "e < d0 + d1" | "d0 + d1 \<le> e" "e < d0 + d1 + d2"
      | "d0 + d1 + d2 \<le> e" "e < d0 + d1 + d2 + d3" | "d0 + d1 + d2 + d3 \<le> e"
      by linarith
    then show ?thesis
    proof cases
      case 1
      then show ?thesis by (simp add: intensityAtD_def gD intensityD_def)
    next
      case 2
      from progressFI_range [OF ex 2]
      have q: "0 \<le> fl (e - d0) / d1" "fl (e - d0) / d1 \<le> 1"
        and p: "0 \<le> progressFI d0 d1 e" "progressFI d0 d1 e \<le> 1" by simp_all
      have pr: "js_divD (fl (e - d0)) d1 = Finite (progressFI d0 d1 e)"
        using pos(2) q by (simp add: js_divD_def flN_unit progressFI_def)
      from fadeInD_unit [OF p]
      have c: "0 \<le> cubeD (progressFI d0 d1 e) * fl (3 / 10)"
        "cubeD (progressFI d0 d1 e) * fl (3 / 10) \<le> 1" by simp_all
      have "getEffectIntensityD FadeIn (Finite (progressFI d0 d1 e))
          = Finite (fl (cubeD (progressFI d0 d1 e) * fl (3 / 10)))"
        using p c by (simp add: easeInCubicD_unit flN_unit)
      then show ?thesis
        using 2 by (simp add: intensityAtD_def gD pr intensityD_def)
    next
      case 3
      then show ?thesis using pos by (simp add: intensityAtD_def gD intensityD_def)
    next
      case 4
      from progressFO_range [OF ex 4]
      have q: "0 \<le> fl (fl (fl (e - d0) - d1) - d2) / d3"
        "fl (fl (fl (e - d0) - d1) - d2) / d3 \<le> 1"
        and p: "0 \<le> progressFO d0 d1 d2 d3 e" "progressFO d0 d1 d2 d3 e \<le> 1" by simp_all
      have pr: "js_divD (fl (fl (fl (e - d0) - d1) - d2)) d3 = Finite (progressFO d0 d1 d2 d3 e)"
        using pos(4) q by (simp add: js_divD_def flN_unit progressFO_def)
      from fadeOutD_unit [OF p]
      have c: "0 \<le> progressFO d0 d1 d2 d3 e * fl (7 / 10)"
        "progressFO d0 d1 d2 d3 e * fl (7 / 10) \<le> 1"
        "0 \<le> fl (3 / 10) + fl (progressFO d0 d1 d2 d3 e * fl (7 / 10))"
        "fl (3 / 10) + fl (progressFO d0 d1 d2 d3 e * fl (7 / 10)) \<le> 1" by simp_all
      have "getEffectIntensityD FadeOut (Finite (progressFO d0 d1 d2 d3 e))
          = Finite (fl (fl (3 / 10) + fl (progressFO d0 d1 d2 d3 e * fl (7 / 10))))"
        using c by (simp add: flN_unit)
      then show ?thesis
        using 4 pos by (simp add: intensityAtD_def gD pr intensityD_def)
    next
      case 5
      then show ?thesis using pos by (simp add: intensityAtD_def gD intensityD_def)
    qed
  qed
  with tD t ph show ?thesis by (simp add: d0_def d1_def d2_def d3_def)
qed

text \<open>
  Claim C10, amended. In double arithmetic, for every timing configuration whose four
  durations are positive whole numbers with a sum of at most \<open>2 ^ 53\<close>, the map from the
  elapsed time to the intensity is monotonically non-decreasing below the total duration
  and stays between 0 and 1 there; it is 0 at elapsed time 0; and from the total duration
  on the phase is Complete and the intensity is 0.
\<close>

theorem intensityD_monotone_whole_timing:
  assumes "wholeTiming tm" and "e1 \<le> e2" and "e2 < totalDurationD tm"
  shows "numLe (Finite 0) (intensityAtD tm e1)
    \<and> numLe (intensityAtD tm e1) (intensityAtD tm e2)
    \<and> numLe (intensityAtD tm e2) (Finite 1)
    \<and> intensityAtD tm 0 = Finite 0
    \<and> (\<forall>e. totalDurationD tm \<le> e \<longrightarrow>
          phase (getPhaseProgressD tm e) = Complete \<and> intensityAtD tm e = Finite 0)"
proof -
  define d0 where "d0 = orDefault (initialDelay tm) 200"
  define d1 where "d1 = orDefault (fadeInDuration tm) 400"
  define d2 where "d2 = orDefault (holdDuration tm) 200"
  define d3 where "d3 = orDefault (fadeOutDuration tm) 1200"
  have ex: "exactDurations d0 d1 d2 d3"
    using wholeTiming_exact [OF assms(1)] by (simp only: d0_def d1_def d2_def d3_def)
  have pos: "0 < d0" "0 < d1" "0 < d2" "0 < d3"
    using ex by (simp_all add: exactDurations_def)
  have val: "intensityAtD tm e = Finite (intensityD d0 d1 d2 d3 e)" for e
    using intensityAtD_value [OF wholeTiming_exact [OF assms(1)], of e]
    by (simp only: d0_def d1_def d2_def d3_def)
  have tot: "totalDurationD tm = d0 + d1 + d2 + d3"
    using intensityAtD_value [OF wholeTiming_exact [OF assms(1)], of 0]
    by (simp add: totalDuration_def d0_def d1_def d2_def d3_def)
  have lt2: "e2 < d0 + d1 + d2 + d3" using assms(3) tot by simp
  have lt1: "e1 < d0 + d1 + d2 + d3" using assms(2) lt2 by simp
  have a: "numLe (Finite 0) (intensityAtD tm e1)"
    using intensityD_bounds [OF ex lt1] by (simp add: val)
  have b: "numLe (intensityAtD tm e1) (intensityAtD tm e2)"
    using intensityD_mono [OF ex assms(2) lt2] by (simp add: val)
  have c: "numLe (intensityAtD tm e2) (Finite 1)"
    using intensityD_bounds [OF ex lt2] by (simp add: val)
  have d: "intensityAtD tm 0 = Finite 0"
    using pos(1) by (simp add: val intensityD_Initial)
  have f: "phase (getPhaseProgressD tm e) = Complete \<and> intensityAtD tm e = Finite 0"
    if "totalDurationD tm \<le> e" for e
  proof -
    have ge: "d0 + d1 + d2 + d3 \<le> e" using that tot by simp
    have "phase (getPhaseProgressD tm e) = phase (getPhaseProgress tm e)"
      using intensityAtD_value [OF wholeTiming_exact [OF assms(1)], of e] by simp
    also have "\<dots> = Complete"
      using ge pos by (simp add: getPhaseProgress_def Let_def totalDuration_def
          d0_def [symmetric] d1_def [symmetric] d2_def [symmetric] d3_def [symmetric])
    finally have "phase (getPhaseProgressD tm e) = Complete" .
    moreover have "intensityD d0 d1 d2 d3 e = 0"
      using ge pos by (simp add: intensityD_Complete)
    ultimately show ?thesis by (simp add: val)
  qed
  from a b c d f show ?thesis by blast
qed

theorem intensityD_monotone_whole_timing_witness:
  "wholeTiming defaultTiming \<and> (400::real) \<le> 1400 \<and> 1400 < totalDurationD defaultTiming
   \<and> intensityAtD defaultTiming 400 = Finite (5404319552844595 / 144115188075855872)
   \<and> intensityAtD defaultTiming 1400 = Finite (1463669878895411 / 2251799813685248)
   \<and> numLe (Finite 0) (intensityAtD defaultTiming 400)
   \<and> numLe (intensityAtD defaultTiming 400) (intensityAtD defaultTiming 1400)
   \<and> numLe (intensityAtD defaultTiming 1400) (Finite 1)
   \<and> intensityAtD defaultTiming 0 = Finite 0
   \<and> intensityAtD defaultTiming 1999 = Finite (4500972527587863 / 4503599627370496)"
proof -
  have w: "wholeTiming defaultTiming"
    by (simp add: wholeTiming_def wholePositive_def defaultTiming_def totalDuration_def)
  have e: "(400::real) \<le> 1400" by simp
  have t: "1400 < totalDurationD defaultTiming"
    by (simp add: totalDurationD_def defaultTiming_def fl_eval)
  have v1: "intensityAtD defaultTiming 400 = Finite (5404319552844595 / 144115188075855872)"
    by (simp add: intensityAtD_def getPhaseProgressD_def totalDurationD_def defaultTiming_def
        js_divD_def easeInCubicD_def flN_def fl_eval)
  have v2: "intensityAtD defaultTiming 1400 = Finite (1463669878895411 / 2251799813685248)"
    by (simp add: intensityAtD_def getPhaseProgressD_def totalDurationD_def defaultTiming_def
        js_divD_def flN_def fl_eval)
  have v3: "intensityAtD defaultTiming 1999 = Finite (4500972527587863 / 4503599627370496)"
    by (simp add: intensityAtD_def getPhaseProgressD_def totalDurationD_def defaultTiming_def
        js_divD_def flN_def fl_eval)
  from w e t v1 v2 v3 intensityD_monotone_whole_timing [OF w e t] show ?thesis by simp
qed

text \<open>
  Claim C10 says that below the total duration the intensity is non-decreasing and never
  exceeds 1. In double arithmetic neither holds for all positive durations. With the
  durations 0.1, 0.3, 0.9 and 0.1 the intensity is 0.3 at the elapsed time
  1.2999999999999998 (Hold) and 0.2999999999999992 at 1.3 (FadeOut, with a negative
  progress), both below the total. With the durations 0.1, 0.2, 0.3 and 0.3 the
  intensity at the elapsed time 0.9, below the computed total, is 1.0000000000000002.
\<close>

theorem intensity_monotone_until_complete_counterexample:
  "positiveTiming seamTiming \<and> validTimingD seamTiming
   \<and> isDouble (1463669878895411 / 1125899906842624)
   \<and> (0::real) \<le> 1463669878895411 / 1125899906842624
   \<and> 1463669878895411 / 1125899906842624 \<le> fl (13 / 10)
   \<and> fl (13 / 10) < totalDurationD seamTiming
   \<and> fl (13 / 10) < totalDuration seamTiming
   \<and> intensityAtD seamTiming (1463669878895411 / 1125899906842624)
       = Finite (5404319552844595 / 18014398509481984)
   \<and> intensityAtD seamTiming (fl (13 / 10))
       = Finite (5404319552844581 / 18014398509481984)
   \<and> \<not> numLe (intensityAtD seamTiming (1463669878895411 / 1125899906842624))
         (intensityAtD seamTiming (fl (13 / 10)))
   \<and> positiveTiming tenthsTiming
   \<and> fl (9 / 10) < totalDurationD tenthsTiming
   \<and> intensityAtD tenthsTiming (fl (9 / 10)) = Finite (4503599627370497 / 4503599627370496)
   \<and> \<not> numLe (intensityAtD tenthsTiming (fl (9 / 10))) (Finite 1)"
proof -
  have a: "positiveTiming seamTiming \<and> validTimingD seamTiming
      \<and> isDouble (1463669878895411 / 1125899906842624)
      \<and> 1463669878895411 / 1125899906842624 \<le> fl (13 / 10)
      \<and> fl (13 / 10) < totalDurationD seamTiming
      \<and> fl (13 / 10) < totalDuration seamTiming"
    by (simp add: validTimingD_def positiveTiming_def seamTiming_def isDouble_def
        totalDurationD_def totalDuration_def fl_eval)
  have v1: "intensityAtD seamTiming (1463669878895411 / 1125899906842624)
      = Finite (5404319552844595 / 18014398509481984)"
    by (simp add: seamTiming_def intensityAtD_def getPhaseProgressD_def totalDurationD_def
        js_divD_def flN_def fl_eval)
  have v2: "intensityAtD seamTiming (fl (13 / 10))
      = Finite (5404319552844581 / 18014398509481984)"
    by (simp add: seamTiming_def intensityAtD_def getPhaseProgressD_def totalDurationD_def
        js_divD_def flN_def fl_eval)
  have b: "positiveTiming tenthsTiming \<and> fl (9 / 10) < totalDurationD tenthsTiming"
    by (simp add: positiveTiming_def tenthsTiming_def totalDurationD_def fl_eval)
  have v3: "intensityAtD tenthsTiming (fl (9 / 10))
      = Finite (4503599627370497 / 4503599627370496)"
    by (simp add: tenthsTiming_def intensityAtD_def getPhaseProgressD_def totalDurationD_def
        js_divD_def flN_def fl_eval)
  from a b show ?thesis by (simp add: v1 v2 v3)
qed

end
